theory Spec2Isabelle
  imports Complex_Main "HOL-Library.Char_ord" "HOL-Library.List_Lexorder"
    "HOL-Library.Product_Lexorder" "HOL-Library.Option_ord"
begin

section \<open>Python strings\<close>

text \<open>
  A Python \<open>str\<close> is a sequence of Unicode code points, and the program depends on
  code points beyond one byte (the Turkish letters of \<open>turkish_map\<close>), so a string is
  a list of code points. \<open>u\<close> writes an ASCII literal.
\<close>

type_synonym ustr = "nat list"

definition u :: "string \<Rightarrow> ustr" where
  "u s = map of_char s"

text \<open>
  \<open>str.isspace\<close> for one code point, which is also what \<open>\s\<close> matches in a
  \<open>str\<close> pattern of \<open>re\<close>: the complete list of Unicode white space.
\<close>

definition is_space :: "nat \<Rightarrow> bool" where
  "is_space c \<longleftrightarrow>
     (9 \<le> c \<and> c \<le> 13) \<or> (28 \<le> c \<and> c \<le> 32) \<or> c = 0x85 \<or> c = 0xA0 \<or> c = 0x1680 \<or>
     (0x2000 \<le> c \<and> c \<le> 0x200A) \<or> c = 0x2028 \<or> c = 0x2029 \<or> c = 0x202F \<or>
     c = 0x205F \<or> c = 0x3000"

text \<open>\<open>str.strip()\<close>: white space removed at both ends.\<close>

definition py_strip :: "ustr \<Rightarrow> ustr" where
  "py_strip s = rev (dropWhile is_space (rev (dropWhile is_space s)))"

text \<open>
  \<open>str.lower()\<close>, one code point at a time. The table is the Unicode lower-case mapping
  of Basic Latin, Latin-1 Supplement and Latin Extended-A (code points below U+0180,
  which holds every Turkish letter); U+0130 (capital I with dot above) lowers to the
  two code points \<open>i\<close>, U+0307. Code points from U+0180 on are left as they are: the
  model does not cover their case mapping.
\<close>

definition lower_cp :: "nat \<Rightarrow> nat list" where
  "lower_cp c =
     (if 0x41 \<le> c \<and> c \<le> 0x5A then [c + 32]
      else if 0xC0 \<le> c \<and> c \<le> 0xDE \<and> c \<noteq> 0xD7 then [c + 32]
      else if c = 0x130 then [0x69, 0x307]
      else if c = 0x178 then [0xFF]
      else if (0x100 \<le> c \<and> c \<le> 0x137) \<or> (0x14A \<le> c \<and> c \<le> 0x177)
        then (if even c then [c + 1] else [c])
      else if (0x139 \<le> c \<and> c \<le> 0x148) \<or> (0x179 \<le> c \<and> c \<le> 0x17E)
        then (if odd c then [c + 1] else [c])
      else [c])"

definition py_lower :: "ustr \<Rightarrow> ustr" where
  "py_lower s = concat (map lower_cp s)"

text \<open>
  \<open>str.maketrans(x, y)\<close> is the table sending the i-th code point of \<open>x\<close> to the
  i-th of \<open>y\<close>; \<open>str.translate\<close> replaces every code point the table holds.
\<close>

definition maketrans :: "ustr \<Rightarrow> ustr \<Rightarrow> (nat \<times> nat) list" where
  "maketrans x y = zip x y"

definition translate_cp :: "(nat \<times> nat) list \<Rightarrow> nat \<Rightarrow> nat" where
  "translate_cp tbl c = (case map_of tbl c of Some d \<Rightarrow> d | None \<Rightarrow> c)"

definition translate :: "(nat \<times> nat) list \<Rightarrow> ustr \<Rightarrow> ustr" where
  "translate tbl s = map (translate_cp tbl) s"

text \<open>\<open>re.sub(r"\s+", " ", text)\<close>: every maximal run of white space becomes one space.\<close>

function collapse_ws :: "ustr \<Rightarrow> ustr" where
  "collapse_ws [] = []"
| "collapse_ws (c # cs) =
     (if is_space c then 32 # collapse_ws (dropWhile is_space cs) else c # collapse_ws cs)"
  by pat_completeness auto
termination
  by (relation "measure length") (auto intro: le_imp_less_Suc length_dropWhile_le)

section \<open>utils.py: normalize_text\<close>

text \<open>
  The argument is \<open>Any\<close>: \<open>None\<close>, a NaN (\<open>pd.isna\<close>), or a value that the function
  turns into text with \<open>str()\<close> first, given here by that text.
\<close>

datatype pyval = PyNone | PyNaN | PyStr ustr

text \<open>The letters of \<open>"\<dots>"\<close> in \<open>str.maketrans\<close>: dotless i, g breve, u diaeresis,
  s cedilla, o diaeresis, c cedilla, then their capitals (with dotted capital I).\<close>

definition turkish_map :: "(nat \<times> nat) list" where
  "turkish_map = maketrans
     [0x131, 0x11F, 0xFC, 0x15F, 0xF6, 0xE7, 0x130, 0x11E, 0xDC, 0x15E, 0xD6, 0xC7]
     (u ''igusocIGUSOC'')"

definition normalize_text :: "pyval \<Rightarrow> ustr" where
  "normalize_text text =
     (case text of
        PyNone \<Rightarrow> []
      | PyNaN \<Rightarrow> []
      | PyStr s \<Rightarrow>
          (let t = py_lower (py_strip s) in
           if t \<in> set [u ''nan'', u ''none'', []] then []
           else collapse_ws (translate turkish_map t)))"

section \<open>utils.py: the search helpers\<close>

text \<open>
  \<open>\w\<close> of a \<open>str\<close> pattern (alphanumeric or underscore), which decides where
  \<open>\b\<close> holds. As for \<open>lower_cp\<close>, the table is exact below U+0180 and the model
  does not cover the code points from U+0180 on (they count as non-word).
\<close>

definition is_word :: "nat \<Rightarrow> bool" where
  "is_word c \<longleftrightarrow>
     (0x30 \<le> c \<and> c \<le> 0x39) \<or> (0x41 \<le> c \<and> c \<le> 0x5A) \<or> c = 0x5F \<or>
     (0x61 \<le> c \<and> c \<le> 0x7A) \<or> c = 0xAA \<or> c = 0xB2 \<or> c = 0xB3 \<or> c = 0xB5 \<or>
     c = 0xB9 \<or> c = 0xBA \<or> (0xBC \<le> c \<and> c \<le> 0xBE) \<or>
     (0xC0 \<le> c \<and> c < 0x180 \<and> c \<noteq> 0xD7 \<and> c \<noteq> 0xF7)"

text \<open>
  \<open>create_search_pattern\<close> returns \<open>re.escape(q)\<close>, which matches the text \<open>q\<close>
  literally, alone or between two \<open>\b\<close>. A pattern is kept as that text and the flag.
\<close>

datatype pattern = Literal ustr | WordBounded ustr

definition create_search_pattern :: "ustr \<Rightarrow> bool \<Rightarrow> pattern" where
  "create_search_pattern query exact_word =
     (let escaped_query = normalize_text (PyStr query) in
      if exact_word then WordBounded escaped_query else Literal escaped_query)"

text \<open>
  \<open>\b\<close> at position \<open>i\<close> of \<open>s\<close>: exactly one of the code points before and at
  \<open>i\<close> is a word character (a missing neighbour counts as non-word).
\<close>

definition at_boundary :: "ustr \<Rightarrow> nat \<Rightarrow> bool" where
  "at_boundary s i \<longleftrightarrow>
     (0 < i \<and> i \<le> length s \<and> is_word (s ! (i - 1))) \<noteq> (i < length s \<and> is_word (s ! i))"

definition occurs_at :: "ustr \<Rightarrow> ustr \<Rightarrow> nat \<Rightarrow> bool" where
  "occurs_at q s i \<longleftrightarrow> i + length q \<le> length s \<and> take (length q) (drop i s) = q"

text \<open>\<open>re.search(pattern, s)\<close> finds a match, as \<open>Series.str.contains(regex=True)\<close> asks.\<close>

fun re_search :: "pattern \<Rightarrow> ustr \<Rightarrow> bool" where
  "re_search (Literal q) s = list_ex (\<lambda>i. occurs_at q s i) [0..<Suc (length s)]"
| "re_search (WordBounded q) s =
     list_ex (\<lambda>i. at_boundary s i \<and> occurs_at q s i \<and> at_boundary s (i + length q))
       [0..<Suc (length s)]"

section \<open>find\_commision\_rate.py: the commission table and its search\<close>

text \<open>
  A row of the loaded table. The three text columns have been through \<open>astype(str)\<close>;
  the commission is a number or NaN (\<open>None\<close>). Commissions are exact rationals here,
  where the program has floating-point doubles: the functions below only compare them.
\<close>

record commission_row =
  kategori :: ustr
  alt_kategori :: ustr
  urun_grubu :: ustr
  komisyon :: "rat option"

text \<open>The columns \<open>_kategori_norm\<close>, \<open>_alt_kategori_norm\<close>, \<open>_urun_grubu_norm\<close> that
  \<open>load_data\<close> adds.\<close>

definition kategori_norm :: "commission_row \<Rightarrow> ustr" where
  "kategori_norm r = normalize_text (PyStr (kategori r))"

definition alt_kategori_norm :: "commission_row \<Rightarrow> ustr" where
  "alt_kategori_norm r = normalize_text (PyStr (alt_kategori r))"

definition urun_grubu_norm :: "commission_row \<Rightarrow> ustr" where
  "urun_grubu_norm r = normalize_text (PyStr (urun_grubu r))"

text \<open>\<open>Series.unique()\<close> and \<open>drop_duplicates()\<close> keep the first of equal entries.\<close>

definition keep_first :: "'a list \<Rightarrow> 'a list" where
  "keep_first xs = rev (remdups (rev xs))"

definition get_unique_values_from_column :: "commission_row list \<Rightarrow> ustr list" where
  "get_unique_values_from_column df =
     (let values = keep_first (map urun_grubu df);
          clean_values = filter (\<lambda>val. val \<noteq> [] \<and> 2 \<le> length (py_strip val) \<and>
            py_lower (py_strip val) \<notin> set [u ''nan'', u ''none'', u ''null'', []]) values
      in sort clean_values)"

text \<open>The masks of the five tiers, for the normalised query.\<close>

definition mask_exact :: "ustr \<Rightarrow> commission_row \<Rightarrow> bool" where
  "mask_exact query_norm r =
     re_search (create_search_pattern query_norm True) (urun_grubu_norm r)"

definition mask_partial :: "ustr \<Rightarrow> commission_row \<Rightarrow> bool" where
  "mask_partial query_norm r =
     re_search (create_search_pattern query_norm False) (urun_grubu_norm r)"

definition mask_category :: "ustr \<Rightarrow> commission_row \<Rightarrow> bool" where
  "mask_category query_norm r \<longleftrightarrow>
     re_search (create_search_pattern query_norm False) (kategori_norm r) \<or>
     re_search (create_search_pattern query_norm False) (alt_kategori_norm r)"

definition broad_mask :: "ustr \<Rightarrow> commission_row \<Rightarrow> bool" where
  "broad_mask query_norm r \<longleftrightarrow>
     re_search (create_search_pattern query_norm False) (kategori_norm r) \<or>
     re_search (create_search_pattern query_norm False) (alt_kategori_norm r) \<or>
     re_search (create_search_pattern query_norm False) (urun_grubu_norm r)"

text \<open>
  The fourth tier asks \<open>difflib.get_close_matches\<close> (with the raw query, the cleaned
  product groups, \<open>n = MAX_FUZZY_RESULTS\<close> and \<open>cutoff = MIN_SIMILARITY_THRESHOLD\<close>).
  The library function is a parameter \<open>gcm\<close> of the search.
\<close>

definition fuzzy_matches :: "(ustr \<Rightarrow> ustr list \<Rightarrow> ustr list) \<Rightarrow> commission_row list \<Rightarrow> ustr \<Rightarrow> ustr list" where
  "fuzzy_matches gcm df query = gcm query (get_unique_values_from_column df)"

definition fuzzy_results :: "(ustr \<Rightarrow> ustr list \<Rightarrow> ustr list) \<Rightarrow> commission_row list \<Rightarrow> ustr \<Rightarrow> commission_row list" where
  "fuzzy_results gcm df query = filter (\<lambda>r. urun_grubu r \<in> set (fuzzy_matches gcm df query)) df"

definition search_products :: "(ustr \<Rightarrow> ustr list \<Rightarrow> ustr list) \<Rightarrow> commission_row list \<Rightarrow> ustr \<Rightarrow> commission_row list" where
  "search_products gcm df query =
     (let query_norm = normalize_text (PyStr query) in
      if query_norm = [] then []
      else let exact_results = filter (mask_exact query_norm) df in
      if exact_results \<noteq> [] then exact_results
      else let partial_results = filter (mask_partial query_norm) df in
      if partial_results \<noteq> [] then partial_results
      else let category_results = filter (mask_category query_norm) df in
      if category_results \<noteq> [] then category_results
      else if fuzzy_matches gcm df query \<noteq> [] then fuzzy_results gcm df query
      else let broad_results = filter (broad_mask query_norm) df in
      if broad_results \<noteq> [] then broad_results
      else [])"

text \<open>
  \<open>get_best_match\<close>. \<open>groupby(...)[col].max()\<close> has one row for each key, in the order
  of the keys, with the largest commission of the group, NaN skipped (NaN when the
  group has no number). \<open>sort_values(ascending=False)\<close> puts the largest first and NaN
  last; among equal commissions the model keeps the order of the grouped frame, which
  pandas' default sort does not promise.
\<close>

type_synonym group_key = "ustr \<times> ustr \<times> ustr"

definition key_of :: "commission_row \<Rightarrow> group_key" where
  "key_of r = (kategori r, alt_kategori r, urun_grubu r)"

fun nanmax :: "rat option list \<Rightarrow> rat option" where
  "nanmax [] = None"
| "nanmax (x # xs) =
     (case x of
        None \<Rightarrow> nanmax xs
      | Some a \<Rightarrow> (case nanmax xs of None \<Rightarrow> Some a | Some b \<Rightarrow> Some (max a b)))"

definition groupby_max :: "commission_row list \<Rightarrow> (group_key \<times> rat option) list" where
  "groupby_max results =
     map (\<lambda>k. (k, nanmax (map komisyon (filter (\<lambda>r. key_of r = k) results))))
       (sort (remdups (map key_of results)))"

definition sort_values_desc :: "(group_key \<times> rat option) list \<Rightarrow> (group_key \<times> rat option) list" where
  "sort_values_desc g = rev (sort_key snd (rev g))"

definition get_best_match :: "commission_row list \<Rightarrow> (group_key \<times> rat option) option" where
  "get_best_match results =
     (if results = [] then None
      else case sort_values_desc (groupby_max results) of
             [] \<Rightarrow> None
           | best # _ \<Rightarrow> Some best)"

section \<open>Python floats\<close>

text \<open>
  A Python \<open>float\<close> is an IEEE 754 double. The parser only meets non-negative ones, so a
  float is the rational it denotes, or infinity. \<open>to_double\<close> rounds a non-negative
  rational to the nearest double, ties to the even mantissa: 53 bits of mantissa,
  exponents from -1022 (below which the spacing stays \<open>2^-1074\<close>, so that small values
  round to subnormals or to 0), and infinity from \<open>2^1024\<close> on. This is what
  \<open>float(text)\<close> and the product of two doubles return.
\<close>

datatype pyfloat = Finite rat | Infinity

fun bit_length :: "nat \<Rightarrow> nat" where
  "bit_length n = (if n = 0 then 0 else Suc (bit_length (n div 2)))"

declare bit_length.simps [simp del]

definition pow2 :: "int \<Rightarrow> rat" where
  "pow2 k = (if 0 \<le> k then 2 ^ nat k else 1 / 2 ^ nat (- k))"

definition floor_log2 :: "rat \<Rightarrow> int" where
  "floor_log2 x =
     (if 1 \<le> x then int (bit_length (nat \<lfloor>x\<rfloor>)) - 1
      else - int (bit_length (nat (\<lceil>1 / x\<rceil> - 1))))"

definition round_half_even :: "rat \<Rightarrow> int" where
  "round_half_even y =
     (let f = \<lfloor>y\<rfloor>; r = y - of_int f in
      if r < 1 / 2 then f else if 1 / 2 < r then f + 1 else if even f then f else f + 1)"

definition to_double :: "rat \<Rightarrow> pyfloat" where
  "to_double x =
     (if x \<le> 0 then Finite 0
      else let k = max (floor_log2 x) (- 1022) - 52;
               y = of_int (round_half_even (x / pow2 k)) * pow2 k
           in if pow2 1024 \<le> y then Infinity else Finite y)"

section \<open>utils.py: parse\_commission\_to\_float\<close>

text \<open>
  \<open>\d\<close> is taken as the ASCII digits, which are all the decimal digits below U+0660.
  \<open>decimal_value\<close> is the number that a text of digits with at most one point and at
  least one digit denotes; on any other text \<open>float()\<close> raises \<open>ValueError\<close>
  (\<open>None\<close>). \<open>py_float\<close> is \<open>float()\<close> on the texts the program gives it: the
  double nearest to that number.
\<close>

definition is_digit :: "nat \<Rightarrow> bool" where
  "is_digit c \<longleftrightarrow> 48 \<le> c \<and> c \<le> 57"

definition digits_value :: "ustr \<Rightarrow> nat" where
  "digits_value ds = foldl (\<lambda>acc c. 10 * acc + (c - 48)) 0 ds"

definition decimal_value :: "ustr \<Rightarrow> rat option" where
  "decimal_value s =
     (let ip = takeWhile is_digit s; rest = dropWhile is_digit s in
      if rest = [] then (if ip = [] then None else Some (of_nat (digits_value ip)))
      else if hd rest = 46 \<and> list_all is_digit (tl rest) \<and> (ip \<noteq> [] \<or> tl rest \<noteq> [])
        then Some (of_nat (digits_value ip)
                   + of_nat (digits_value (tl rest)) / 10 ^ length (tl rest))
      else None)"

definition py_float :: "ustr \<Rightarrow> pyfloat option" where
  "py_float s = map_option to_double (decimal_value s)"

text \<open>\<open>s.replace(old, new)\<close> for a one-character \<open>old\<close>.\<close>

definition py_replace :: "nat \<Rightarrow> ustr \<Rightarrow> ustr \<Rightarrow> ustr" where
  "py_replace old new s = concat (map (\<lambda>c. if c = old then new else [c]) s)"

text \<open>\<open>re.findall(r"[\d\.,]+", s)\<close>: the maximal runs of digits, points and commas.\<close>

definition is_numeric_char :: "nat \<Rightarrow> bool" where
  "is_numeric_char c \<longleftrightarrow> is_digit c \<or> c = 46 \<or> c = 44"

function findall_numeric :: "ustr \<Rightarrow> ustr list" where
  "findall_numeric [] = []"
| "findall_numeric (c # cs) =
     (if is_numeric_char c
      then (c # takeWhile is_numeric_char cs) # findall_numeric (dropWhile is_numeric_char cs)
      else findall_numeric cs)"
  by pat_completeness auto
termination
  by (relation "measure length") (auto intro: le_imp_less_Suc length_dropWhile_le)

text \<open>The comma and point handling of \<open>parse_commission_to_float\<close> on the run it found.\<close>

definition fix_separators :: "ustr \<Rightarrow> ustr" where
  "fix_separators raw_number =
     (if 44 \<in> set raw_number \<and> 46 \<in> set raw_number
        then py_replace 44 [46] (py_replace 46 [] raw_number)
      else if 44 \<in> set raw_number then py_replace 44 [46] raw_number
      else raw_number)"

text \<open>\<open>if 0 < result <= 1: result = result * 100\<close>, the product being a double again.\<close>

definition scale_correction :: "pyfloat \<Rightarrow> pyfloat" where
  "scale_correction result =
     (case result of
        Finite v \<Rightarrow> if 0 < v \<and> v \<le> 1 then to_double (v * 100) else Finite v
      | Infinity \<Rightarrow> Infinity)"

text \<open>\<open>0 <= result <= 100\<close>.\<close>

definition in_percent_range :: "pyfloat \<Rightarrow> bool" where
  "in_percent_range result =
     (case result of Finite v \<Rightarrow> 0 \<le> v \<and> v \<le> 100 | Infinity \<Rightarrow> False)"

text \<open>The function logs a warning or an error besides returning; the log is returned too.\<close>

datatype log_event = LogWarning | LogError

definition parse_commission_to_float :: "pyval \<Rightarrow> pyfloat option \<times> log_event list" where
  "parse_commission_to_float v =
     (case v of
        PyNone \<Rightarrow> (None, [])
      | PyNaN \<Rightarrow> (None, [])
      | PyStr s \<Rightarrow>
          (let value_str = py_strip s in
           if value_str = [] \<or> py_lower value_str \<in> set [u ''nan'', u ''none'', []]
             then (None, [])
           else case findall_numeric value_str of
             [] \<Rightarrow> (None, [])
           | raw_number # _ \<Rightarrow>
               (case py_float (fix_separators raw_number) of
                  None \<Rightarrow> (None, [LogError])
                | Some result0 \<Rightarrow>
                    (let result = scale_correction result0
                     in if in_percent_range result then (Some result, [])
                        else (Some result, [LogWarning])))))"

section \<open>app.py: the number helpers and \_normalize\_to\_flat4\<close>

text \<open>\<open>re.search(r"(\d+(?:\.\d+)?)", s)\<close>: the first run of digits, with a point and
  more digits when they follow.\<close>

definition first_decimal :: "ustr \<Rightarrow> ustr option" where
  "first_decimal s =
     (let t = dropWhile (\<lambda>c. \<not> is_digit c) s in
      if t = [] then None
      else let ip = takeWhile is_digit t; rest = dropWhile is_digit t in
        (case rest of
           d # f # _ \<Rightarrow>
             if d = 46 \<and> is_digit f then Some (ip @ [46] @ takeWhile is_digit (tl rest))
             else Some ip
         | _ \<Rightarrow> Some ip))"

text \<open>\<open>_extract_num\<close> (module level) on a text: \<open>%\<close> removed, commas to points.\<close>

definition extract_num :: "ustr \<Rightarrow> pyfloat option" where
  "extract_num val =
     (case first_decimal (py_replace 44 [46] (py_replace 37 [] val)) of
        None \<Rightarrow> None
      | Some m \<Rightarrow> py_float m)"

text \<open>
  \<open>MultiMarketplaceCommissionService._extract_number\<close>, \<open>_fix_scale\<close> and the
  commission column they fill. The column is kept by the exact numbers its cells
  denote: the rounding of these numbers to doubles, and the floating-point
  interpolation inside pandas' \<open>quantile\<close>, are not modelled. The results about
  \<open>_normalize_to_flat4\<close> concern the three text columns and hold whatever the
  commission column is.
\<close>

definition extract_number :: "ustr \<Rightarrow> rat option" where
  "extract_number x =
     (case first_decimal (py_replace 44 [46] (py_strip x)) of
        None \<Rightarrow> None
      | Some m \<Rightarrow> decimal_value m)"

text \<open>\<open>Series.quantile(0.95)\<close> of the numbers present, by linear interpolation.\<close>

definition quantile95 :: "rat list \<Rightarrow> rat" where
  "quantile95 vs =
     (let sv = sort vs; n = length sv; pos = 19 * (n - 1);
          lo = pos div 20; hi = min (lo + 1) (n - 1)
      in sv ! lo + (sv ! hi - sv ! lo) * (of_nat (pos mod 20) / 20))"

definition fix_scale :: "rat option list \<Rightarrow> rat option list" where
  "fix_scale series =
     (let present = concat (map (\<lambda>x. case x of None \<Rightarrow> [] | Some v \<Rightarrow> [v]) series) in
      if present \<noteq> [] \<and> quantile95 present \<le> 1
        then map (map_option (\<lambda>v. v * 100)) series
      else series)"

text \<open>
  The table read from a CSV file: its column names, and its rows, each giving the cell
  of a column as the text \<open>astype(str)\<close> makes of it (the first thing
  \<open>_normalize_to_flat4\<close> does with every column it reads; a missing cell is
  \<open>"nan"\<close>).
\<close>

record dataframe =
  columns :: "ustr list"
  rows :: "(ustr \<Rightarrow> ustr) list"

record candidates =
  category :: "ustr list"
  sub_category :: "ustr list"
  product_group :: "ustr list"
  commission :: "ustr list"

datatype error = ValueError string

definition pick_first_present :: "dataframe \<Rightarrow> ustr list \<Rightarrow> ustr option" where
  "pick_first_present df cands = find (\<lambda>c. c \<in> set (columns df)) cands"

text \<open>Python's \<open>x or ""\<close> for \<open>x\<close> a text or \<open>None\<close>.\<close>

definition or_empty :: "ustr option \<Rightarrow> ustr" where
  "or_empty x = (case x of None \<Rightarrow> [] | Some c \<Rightarrow> c)"

text \<open>One row of the frame \<open>out\<close>: the branch on the category and sub-category columns,
  the product group, and the commission computed for the row.\<close>

definition flat4_row :: "ustr \<Rightarrow> ustr \<Rightarrow> ustr \<Rightarrow> (ustr \<Rightarrow> ustr) \<Rightarrow> rat option \<Rightarrow> commission_row" where
  "flat4_row cat_col sub_col grp_col row v =
     (if cat_col \<noteq> [] \<and> sub_col \<noteq> [] \<and> cat_col \<noteq> sub_col
      then \<lparr>kategori = py_strip (row cat_col),
            alt_kategori = py_strip (row sub_col),
            urun_grubu = py_strip (row grp_col), komisyon = v\<rparr>
      else (let use_col = (if cat_col \<noteq> [] then cat_col else sub_col) in
            \<lparr>kategori = py_strip (row use_col),
             alt_kategori = [],
             urun_grubu = py_strip (row grp_col), komisyon = v\<rparr>))"

definition normalize_to_flat4 :: "dataframe \<Rightarrow> candidates \<Rightarrow> error + commission_row list" where
  "normalize_to_flat4 df cands =
     (let cat_col = or_empty (pick_first_present df (category cands));
          sub_col = or_empty (pick_first_present df (sub_category cands));
          grp_col = or_empty (pick_first_present df (product_group cands));
          com_col = or_empty (pick_first_present df (commission cands))
      in
      if grp_col = [] then Inl (ValueError ''Urun Grubu kolonu bulunamadi'')
      else if \<not> (cat_col \<noteq> [] \<or> sub_col \<noteq> [])
        then Inl (ValueError ''Kategori/Alt Kategori kolonlari bulunamadi.'')
      else
        let vals = (if com_col \<noteq> []
                    then fix_scale (map (\<lambda>row. extract_number (row com_col)) (rows df))
                    else replicate (length (rows df)) None);
            out = map (\<lambda>(row, v). flat4_row cat_col sub_col grp_col row v) (zip (rows df) vals);
            kept = filter (\<lambda>r. kategori r \<noteq> [] \<or> alt_kategori r \<noteq> [] \<or> urun_grubu r \<noteq> []) out
        in Inr (keep_first kept))"

text \<open>The \<open>columns_candidates\<close> of the six marketplaces of the service.\<close>

datatype marketplace = Trendyol | Hepsiburada | N11 | Amazon | Ciceksepeti | Pttavm

definition Urun_Grubu_tr :: ustr where
  "Urun_Grubu_tr = [0xDC] @ u ''r'' @ [0xFC] @ u ''n Grubu''"

fun columns_candidates :: "marketplace \<Rightarrow> candidates" where
  "columns_candidates Trendyol =
     \<lparr>category = [u ''Ana Kategori'', u ''Kategori''],
      sub_category = [u ''Kategori'', u ''Alt Kategori''],
      product_group = [Urun_Grubu_tr, u ''Urun Grubu'', u ''Urun_Grubu''],
      commission = [u ''Komisyon_%_KDV_Dahil'', u ''komisyon'']\<rparr>"
| "columns_candidates Hepsiburada =
     \<lparr>category = [u ''Ana Kategori'', u ''Kategori''],
      sub_category = [u ''Kategori'', u ''Alt Kategori''],
      product_group = [Urun_Grubu_tr, u ''Urun Grubu'', u ''Urun_Grubu''],
      commission = [u ''Komisyon_%_KDV_Dahil'', u ''Uygulanan_Komisyon_%_KDV_Dahil'',
                    u ''komisyon'']\<rparr>"
| "columns_candidates N11 =
     \<lparr>category = [u ''Kategori'', u ''Ana Kategori''],
      sub_category = [u ''Alt Kategori'', u ''Kategori''],
      product_group = [Urun_Grubu_tr, u ''Urun Grubu'', u ''Urun_Grubu''],
      commission = [u ''Komisyon_%_KDV_Dahil'', u ''komisyon'']\<rparr>"
| "columns_candidates Amazon =
     \<lparr>category = [u ''Kategori''],
      sub_category = [u ''Alt Kategori''],
      product_group = [Urun_Grubu_tr, u ''Kategori''],
      commission = [u ''Komisyon_%_KDV_Dahil'',
                    u ''Sat'' @ [0x131, 0x15F] @ u '' Komisyonu (+KDV)'']\<rparr>"
| "columns_candidates Ciceksepeti =
     \<lparr>category = [u ''Kategori'', u ''Ana Kategori''],
      sub_category = [u ''Alt Kategori'', u ''Kategori''],
      product_group = [Urun_Grubu_tr, u ''Kategori''],
      commission = [u ''Komisyon_%_KDV_Dahil'', u ''Komisyon Oran'' @ [0x131],
                    u ''Revize Komisyon Oran'' @ [0x131]]\<rparr>"
| "columns_candidates Pttavm =
     \<lparr>category = [u ''Kategori'', u ''Ana Kategori''],
      sub_category = [u ''Alt Kategori''],
      product_group = [Urun_Grubu_tr, u ''Alt Kategori'', u ''Kategori''],
      commission = [u ''Komisyon_%_KDV_Dahil'', u ''Komisyon'',
                    u ''Komisyon Oranlar'' @ [0x131]]\<rparr>"

text \<open>The test string of the specification: "Istanbul Soyle Cesit" written with
  U+0130, U+015E, U+00F6, U+00C7, U+015F.\<close>

definition istanbul_soyle_cesit :: ustr where
  "istanbul_soyle_cesit =
     [0x130] @ u ''stanbul '' @ [0x15E, 0xF6] @ u ''yle '' @ [0xC7] @ u ''e'' @ [0x15F] @ u ''it''"

text \<open>Tables for the examples: one without any product-group column, one with a blank
  product group, one with all four columns, one with a single category column.\<close>

definition no_group_table :: dataframe where
  "no_group_table =
     \<lparr>columns = [u ''Marka'', u ''Oran''],
      rows = [\<lambda>c. if c = u ''Marka'' then u ''Acme'' else u ''12'']\<rparr>"

definition blank_group_table :: dataframe where
  "blank_group_table =
     \<lparr>columns = [u ''Kategori'', Urun_Grubu_tr],
      rows = [\<lambda>c. if c = u ''Kategori'' then u ''Ev'' else u '' '']\<rparr>"

definition mixed_table :: dataframe where
  "mixed_table =
     \<lparr>columns = [u ''Kategori'', u ''Alt Kategori'', Urun_Grubu_tr, u ''Komisyon_%_KDV_Dahil''],
      rows = [\<lambda>c. if c = u ''Kategori'' then u '' Ev'' else if c = u ''Alt Kategori'' then u ''Mutfak''
                   else if c = Urun_Grubu_tr then u ''Tava '' else u ''8,0'',
              \<lambda>c. if c = u ''Komisyon_%_KDV_Dahil'' then u ''nan'' else u '' '']\<rparr>"

definition flat_category_table :: dataframe where
  "flat_category_table =
     \<lparr>columns = [u ''Kategori'', Urun_Grubu_tr, u ''komisyon''],
      rows = [\<lambda>c. if c = u ''Kategori'' then u ''Elektronik''
                   else if c = Urun_Grubu_tr then u ''Telefon'' else u ''%15'']\<rparr>"

text \<open>Rows and queries for the examples. \<open>no_close_matches\<close> is a
  \<open>get_close_matches\<close> that finds nothing.\<close>

definition Kilif_tr :: ustr where
  "Kilif_tr = u ''K'' @ [0x131] @ u ''l'' @ [0x131] @ u ''f''"

definition Akilli_Telefon_tr :: ustr where
  "Akilli_Telefon_tr = u ''Ak'' @ [0x131] @ u ''ll'' @ [0x131] @ u '' Telefon''"

definition kilif_row :: commission_row where
  "kilif_row = \<lparr>kategori = u ''Elektronik'', alt_kategori = u ''Telefon'',
                urun_grubu = Kilif_tr, komisyon = Some 10\<rparr>"

definition none_tava_row :: commission_row where
  "none_tava_row = \<lparr>kategori = u ''Ev'', alt_kategori = u ''Mutfak'',
                    urun_grubu = u ''None Tava'', komisyon = Some 8\<rparr>"

definition noene_query :: ustr where
  "noene_query = u ''n'' @ [0xF6] @ u ''ne''"

definition no_close_matches :: "ustr \<Rightarrow> ustr list \<Rightarrow> ustr list" where
  "no_close_matches query possibilities = []"

text \<open>The two rows of the specification's example for \<open>get_best_match\<close>: the same
  category, sub-category and product group, with commissions 15 and 18.\<close>

definition akilli_15 :: commission_row where
  "akilli_15 = \<lparr>kategori = u ''Elektronik'', alt_kategori = u ''Telefon'',
                urun_grubu = Akilli_Telefon_tr, komisyon = Some 15\<rparr>"

definition akilli_18 :: commission_row where
  "akilli_18 = \<lparr>kategori = u ''Elektronik'', alt_kategori = u ''Telefon'',
                urun_grubu = Akilli_Telefon_tr, komisyon = Some 18\<rparr>"

section \<open>Text normalisation: results\<close>

text \<open>
  C7. The specification says that normalising "Istanbul Soyle Cesit" (written with the
  Turkish letters) gives ASCII letters and spaces only. The function lowers the text
  before it translates, and lowering U+0130 gives \<open>i\<close> followed by the combining dot
  U+0307, which the table does not hold: the result keeps the code point U+0307.
\<close>

theorem normalize_istanbul_keeps_combining_dot:
  "normalize_text (PyStr istanbul_soyle_cesit) = [0x69, 0x307] @ u ''stanbul soyle cesit''
   \<and> 0x307 \<in> set (normalize_text (PyStr istanbul_soyle_cesit))
   \<and> \<not> (0x307 :: nat) < 128"
  by (simp add: normalize_text_def istanbul_soyle_cesit_def u_def py_lower_def py_strip_def
      lower_cp_def is_space_def translate_def translate_cp_def turkish_map_def maketrans_def)

section \<open>The commission parser: results\<close>

text \<open>The doubles of the examples, computed by the rounding rule. The two products are
  100 times the doubles of 0.18 and of 0.29.\<close>

lemma to_double_18: "to_double 18 = Finite 18"
  by code_simp

lemma to_double_100: "to_double 100 = Finite 100"
  by code_simp

lemma to_double_18_5: "to_double (37 / 2) = Finite (37 / 2)"
  by code_simp

lemma to_double_0_18: "to_double (9 / 50) = Finite (3242591731706757 / 18014398509481984)"
  by code_simp

lemma to_double_0_18_times_100:
  "to_double (81064793292668925 / 4503599627370496) = Finite 18"
  by code_simp

lemma to_double_1234_56: "to_double (123456 / 100) = Finite (2714826150374277 / 2199023255552)"
  by code_simp

lemma to_double_0_29: "to_double (29 / 100) = Finite (5224175567749775 / 18014398509481984)"
  by code_simp

lemma to_double_0_29_times_100:
  "to_double (130604389193744375 / 4503599627370496) =
     Finite (8162774324609023 / 281474976710656)"
  by code_simp

lemma to_double_just_above_1:
  "to_double (10000000000000000001 / 10000000000000000000) = Finite 1"
  by code_simp

lemma lower_cp_below_A: "c < 0x41 \<Longrightarrow> lower_cp c = [c]"
  by (simp add: lower_cp_def)

lemma lower_cp_numeric: "is_numeric_char c \<Longrightarrow> lower_cp c = [c]"
  by (rule lower_cp_below_A) (auto simp: is_numeric_char_def is_digit_def)

lemma findall_numeric_has_char:
  "findall_numeric t = raw # rest \<Longrightarrow> \<exists>c\<in>set t. is_numeric_char c"
  by (induction t rule: findall_numeric.induct) (auto split: if_splits)

lemma numeric_in_py_lower:
  "c \<in> set t \<Longrightarrow> is_numeric_char c \<Longrightarrow> c \<in> set (py_lower t)"
  by (auto simp: py_lower_def lower_cp_numeric intro!: bexI[of _ c])

lemma numeric_run_not_nan:
  assumes "findall_numeric t = raw # rest"
  shows "py_lower t \<notin> set [u ''nan'', u ''none'', []]"
proof -
  obtain c where c: "c \<in> set t" "is_numeric_char c"
    using findall_numeric_has_char[OF assms] by blast
  then have "c \<in> set (py_lower t)" by (rule numeric_in_py_lower)
  moreover have "\<forall>d \<in> set (u ''nan'') \<union> set (u ''none''). \<not> is_numeric_char d"
    by (simp add: u_def is_numeric_char_def is_digit_def)
  ultimately show ?thesis using c(2) by auto
qed

lemma parse_of_run:
  assumes "findall_numeric (py_strip s) = raw # rest"
  shows "parse_commission_to_float (PyStr s) =
     (case py_float (fix_separators raw) of
        None \<Rightarrow> (None, [LogError])
      | Some v \<Rightarrow> (Some (scale_correction v),
                   if in_percent_range (scale_correction v) then [] else [LogWarning]))"
proof -
  have ne: "py_strip s \<noteq> []" using assms by auto
  have nn: "py_lower (py_strip s) \<notin> set [u ''nan'', u ''none'', []]"
    by (rule numeric_run_not_nan[OF assms])
  show ?thesis
    using ne nn assms
    by (simp add: parse_commission_to_float_def Let_def split: option.split)
qed

lemma fst_parse_of_run:
  assumes "findall_numeric (py_strip s) = raw # rest"
  shows "fst (parse_commission_to_float (PyStr s)) =
     map_option scale_correction (py_float (fix_separators raw))"
  by (simp add: parse_of_run[OF assms] split: option.split)

lemma py_replace_filter: "py_replace c [] s = filter (\<lambda>x. x \<noteq> c) s"
  by (induction s) (auto simp: py_replace_def)

lemma py_replace_map: "py_replace c [d] s = map (\<lambda>x. if x = c then d else x) s"
  by (induction s) (auto simp: py_replace_def)

lemmas run_eval = u_def py_strip_def is_space_def is_numeric_char_def is_digit_def

lemmas decimal_eval = u_def fix_separators_def py_replace_def decimal_value_def is_digit_def
  digits_value_def

lemma run_18_percent: "findall_numeric (py_strip (u ''18%'')) = [u ''18'']"
  by (simp add: run_eval)

lemma run_percent_18: "findall_numeric (py_strip (u ''%18'')) = [u ''18'']"
  by (simp add: run_eval)

lemma run_thousands: "findall_numeric (py_strip (u ''1.234,56'')) = [u ''1.234,56'']"
  by (simp add: run_eval)

lemma run_fraction: "findall_numeric (py_strip (u ''0,18'')) = [u ''0,18'']"
  by (simp add: run_eval)

lemma decimal_18: "decimal_value (fix_separators (u ''18'')) = Some 18"
  by (simp add: decimal_eval)

lemma decimal_thousands: "decimal_value (fix_separators (u ''1.234,56'')) = Some (123456 / 100)"
  by (simp add: decimal_eval)

lemma decimal_fraction: "decimal_value (fix_separators (u ''0,18'')) = Some (9 / 50)"
  by (simp add: decimal_eval)

lemma parse_18_percent:
  "parse_commission_to_float (PyStr (u ''18%'')) = (Some (Finite 18), [])"
  by (simp add: parse_of_run[OF run_18_percent] py_float_def decimal_18 to_double_18
      scale_correction_def in_percent_range_def)

lemma parse_percent_18:
  "parse_commission_to_float (PyStr (u ''%18'')) = (Some (Finite 18), [])"
  by (simp add: parse_of_run[OF run_percent_18] py_float_def decimal_18 to_double_18
      scale_correction_def in_percent_range_def)

lemma parse_thousands:
  "parse_commission_to_float (PyStr (u ''1.234,56'')) =
     (Some (to_double (123456 / 100)), [LogWarning])"
  by (simp only: parse_of_run[OF run_thousands] py_float_def decimal_thousands option.map
      option.case to_double_1234_56)
     (simp add: scale_correction_def in_percent_range_def)

lemma parse_fraction:
  "parse_commission_to_float (PyStr (u ''0,18'')) = (Some (Finite 18), [])"
  by (simp only: parse_of_run[OF run_fraction] py_float_def decimal_fraction option.map
      option.case to_double_0_18)
     (simp add: scale_correction_def in_percent_range_def to_double_0_18_times_100)

lemma run_fraction_29: "findall_numeric (py_strip (u ''0,29'')) = [u ''0,29'']"
  by (simp add: run_eval)

lemma run_just_above_1:
  "findall_numeric (py_strip (u ''1.0000000000000000001'')) = [u ''1.0000000000000000001'']"
  by (simp add: run_eval)

lemma run_18_5: "findall_numeric (py_strip (u ''18,5 %'')) = [u ''18,5'']"
  by (simp add: run_eval)

lemma run_percent_18_5: "findall_numeric (py_strip (u ''%18,5'')) = [u ''18,5'']"
  by (simp add: run_eval)

lemma decimal_fraction_29: "decimal_value (fix_separators (u ''0,29'')) = Some (29 / 100)"
  by (simp add: decimal_eval)

lemma decimal_just_above_1:
  "decimal_value (fix_separators (u ''1.0000000000000000001'')) =
     Some (10000000000000000001 / 10000000000000000000)"
  by (simp add: decimal_eval)

lemma decimal_18_5: "decimal_value (fix_separators (u ''18,5'')) = Some (37 / 2)"
  by (simp add: decimal_eval)

lemma float_thousands:
  "py_float (fix_separators (u ''1.234,56'')) = Some (Finite (2714826150374277 / 2199023255552))"
  by (simp only: py_float_def decimal_thousands option.map to_double_1234_56)

lemma float_fraction:
  "py_float (fix_separators (u ''0,18'')) = Some (Finite (3242591731706757 / 18014398509481984))"
  by (simp only: py_float_def decimal_fraction option.map to_double_0_18)

lemma float_18_5: "py_float (fix_separators (u ''18,5'')) = Some (Finite (37 / 2))"
  by (simp only: py_float_def decimal_18_5 option.map to_double_18_5)

lemma scale_correction_above_1: "1 < v \<Longrightarrow> scale_correction (Finite v) = Finite v"
  by (simp add: scale_correction_def)

lemma scale_correction_fraction:
  "0 < v \<Longrightarrow> v \<le> 1 \<Longrightarrow> scale_correction (Finite v) = to_double (v * 100)"
  by (simp add: scale_correction_def)

text \<open>
  Two values where the doubles show: 0.29 times 100 is the double just below 29, and
  a text just above 1 is read as the double 1, so that it is scaled to 100.
\<close>

lemma parse_fraction_29:
  "parse_commission_to_float (PyStr (u ''0,29'')) =
     (Some (Finite (8162774324609023 / 281474976710656)), [])"
  by (simp only: parse_of_run[OF run_fraction_29] py_float_def decimal_fraction_29 option.map
      option.case to_double_0_29)
     (simp add: scale_correction_def in_percent_range_def to_double_0_29_times_100)

lemma parse_just_above_1:
  "parse_commission_to_float (PyStr (u ''1.0000000000000000001'')) = (Some (Finite 100), [])"
  by (simp only: parse_of_run[OF run_just_above_1] py_float_def decimal_just_above_1 option.map
      option.case to_double_just_above_1)
     (simp add: scale_correction_def in_percent_range_def to_double_100)

lemma fix_separators_both:
  "44 \<in> set raw \<Longrightarrow> 46 \<in> set raw \<Longrightarrow>
   fix_separators raw = map (\<lambda>c. if c = 44 then 46 else c) (filter (\<lambda>c. c \<noteq> 46) raw)"
  by (simp add: fix_separators_def py_replace_filter py_replace_map)

lemma fix_separators_comma:
  "44 \<in> set raw \<Longrightarrow> 46 \<notin> set raw \<Longrightarrow>
   fix_separators raw = map (\<lambda>c. if c = 44 then 46 else c) raw"
  by (simp add: fix_separators_def py_replace_map)

text \<open>
  C5. For a text whose code points are below U+0180: when the first numeric run of the
  value holds both a comma and a point, the parser reads the run with its points
  removed and its commas turned into points; when it holds commas only, with its
  commas turned into points. \<open>parse("18%")\<close> and \<open>parse("%18")\<close> are 18, and
  \<open>parse("1.234,56")\<close> is the double 1234.56: above 100, returned as it is, with a
  warning logged and no error.
\<close>

theorem parse_separator_disambiguation:
  "((\<forall>c \<in> set s. c < 0x180) \<and> findall_numeric (py_strip s) = raw # rest
      \<and> 44 \<in> set raw \<and> 46 \<in> set raw \<longrightarrow>
      fst (parse_commission_to_float (PyStr s)) =
        map_option scale_correction
          (py_float (map (\<lambda>c. if c = 44 then 46 else c) (filter (\<lambda>c. c \<noteq> 46) raw))))
   \<and> ((\<forall>c \<in> set s. c < 0x180) \<and> findall_numeric (py_strip s) = raw # rest
      \<and> 44 \<in> set raw \<and> 46 \<notin> set raw \<longrightarrow>
      fst (parse_commission_to_float (PyStr s)) =
        map_option scale_correction (py_float (map (\<lambda>c. if c = 44 then 46 else c) raw)))
   \<and> parse_commission_to_float (PyStr (u ''18%'')) = (Some (Finite 18), [])
   \<and> parse_commission_to_float (PyStr (u ''%18'')) = (Some (Finite 18), [])
   \<and> parse_commission_to_float (PyStr (u ''1.234,56'')) =
        (Some (to_double (123456 / 100)), [LogWarning])
   \<and> to_double (123456 / 100) = Finite (2714826150374277 / 2199023255552)
   \<and> (100 :: rat) < 2714826150374277 / 2199023255552"
proof (intro conjI impI)
  assume h: "(\<forall>c \<in> set s. c < 0x180) \<and> findall_numeric (py_strip s) = raw # rest
      \<and> 44 \<in> set raw \<and> 46 \<in> set raw"
  then have r: "findall_numeric (py_strip s) = raw # rest" and c: "44 \<in> set raw" "46 \<in> set raw"
    by blast+
  show "fst (parse_commission_to_float (PyStr s)) =
        map_option scale_correction
          (py_float (map (\<lambda>c. if c = 44 then 46 else c) (filter (\<lambda>c. c \<noteq> 46) raw)))"
    unfolding fst_parse_of_run[OF r] fix_separators_both[OF c] by (rule refl)
next
  assume h: "(\<forall>c \<in> set s. c < 0x180) \<and> findall_numeric (py_strip s) = raw # rest
      \<and> 44 \<in> set raw \<and> 46 \<notin> set raw"
  then have r: "findall_numeric (py_strip s) = raw # rest" and c: "44 \<in> set raw" "46 \<notin> set raw"
    by blast+
  show "fst (parse_commission_to_float (PyStr s)) =
        map_option scale_correction (py_float (map (\<lambda>c. if c = 44 then 46 else c) raw))"
    unfolding fst_parse_of_run[OF r] fix_separators_comma[OF c] by (rule refl)
next
  show "parse_commission_to_float (PyStr (u ''18%'')) = (Some (Finite 18), [])"
    by (rule parse_18_percent)
next
  show "parse_commission_to_float (PyStr (u ''%18'')) = (Some (Finite 18), [])"
    by (rule parse_percent_18)
next
  show "parse_commission_to_float (PyStr (u ''1.234,56'')) =
        (Some (to_double (123456 / 100)), [LogWarning])"
    by (rule parse_thousands)
next
  show "to_double (123456 / 100) = Finite (2714826150374277 / 2199023255552)"
    by (rule to_double_1234_56)
next
  show "(100 :: rat) < 2714826150374277 / 2199023255552" by simp
qed

theorem parse_separator_disambiguation_witness:
  "list_all (\<lambda>c. c < 0x180) (u ''1.234,56'')
   \<and> findall_numeric (py_strip (u ''1.234,56'')) = [u ''1.234,56'']
   \<and> 44 \<in> set (u ''1.234,56'') \<and> 46 \<in> set (u ''1.234,56'')
   \<and> fst (parse_commission_to_float (PyStr (u ''1.234,56''))) =
       Some (Finite (2714826150374277 / 2199023255552))
   \<and> list_all (\<lambda>c. c < 0x180) (u ''18,5 %'')
   \<and> findall_numeric (py_strip (u ''18,5 %'')) = [u ''18,5'']
   \<and> 44 \<in> set (u ''18,5'') \<and> 46 \<notin> set (u ''18,5'')
   \<and> fst (parse_commission_to_float (PyStr (u ''18,5 %''))) = Some (Finite (37 / 2))"
proof -
  have sa: "list_all (\<lambda>c. c < 0x180) (u ''1.234,56'')" by (simp add: u_def)
  have sb: "list_all (\<lambda>c. c < 0x180) (u ''18,5 %'')" by (simp add: u_def)
  have ca: "44 \<in> set (u ''1.234,56'')" "46 \<in> set (u ''1.234,56'')" by (simp_all add: u_def)
  have cb: "44 \<in> set (u ''18,5'')" "46 \<notin> set (u ''18,5'')" by (simp_all add: u_def)
  have ha: "(\<forall>c \<in> set (u ''1.234,56''). c < 0x180)
           \<and> findall_numeric (py_strip (u ''1.234,56'')) = u ''1.234,56'' # []
           \<and> 44 \<in> set (u ''1.234,56'') \<and> 46 \<in> set (u ''1.234,56'')"
    using sa run_thousands ca unfolding list_all_iff by (intro conjI)
  have hb: "(\<forall>c \<in> set (u ''18,5 %''). c < 0x180)
           \<and> findall_numeric (py_strip (u ''18,5 %'')) = u ''18,5'' # []
           \<and> 44 \<in> set (u ''18,5'') \<and> 46 \<notin> set (u ''18,5'')"
    using sb run_18_5 cb unfolding list_all_iff by (intro conjI)
  note ta = parse_separator_disambiguation[of "u ''1.234,56''" "u ''1.234,56''" "[]"]
  note tb = parse_separator_disambiguation[of "u ''18,5 %''" "u ''18,5''" "[]"]
  from ta[THEN conjunct1, THEN mp, OF ha]
  have "fst (parse_commission_to_float (PyStr (u ''1.234,56''))) =
        map_option scale_correction (py_float (fix_separators (u ''1.234,56'')))"
    unfolding fix_separators_both[OF ca] .
  then have ra: "fst (parse_commission_to_float (PyStr (u ''1.234,56''))) =
       Some (Finite (2714826150374277 / 2199023255552))"
    unfolding float_thousands by (simp add: scale_correction_above_1)
  from tb[THEN conjunct2, THEN conjunct1, THEN mp, OF hb]
  have "fst (parse_commission_to_float (PyStr (u ''18,5 %''))) =
        map_option scale_correction (py_float (fix_separators (u ''18,5'')))"
    unfolding fix_separators_comma[OF cb] .
  then have rb: "fst (parse_commission_to_float (PyStr (u ''18,5 %''))) = Some (Finite (37 / 2))"
    unfolding float_18_5 by (simp add: scale_correction_above_1)
  from sa run_thousands ca ra sb run_18_5 cb rb show ?thesis by (intro conjI)
qed

text \<open>
  C6. For a text whose code points are below U+0180: the double \<open>v\<close> that the parser
  read is multiplied by 100 (the product being the nearest double) exactly when
  \<open>0 < v \<le> 1\<close>; a value above 1, and an infinite one, is returned as read.
  \<open>parse("0,18")\<close> is 18.
\<close>

theorem parse_scale_correction:
  "((\<forall>c \<in> set s. c < 0x180) \<and> findall_numeric (py_strip s) = raw # rest
      \<and> py_float (fix_separators raw) = Some (Finite v) \<longrightarrow>
      fst (parse_commission_to_float (PyStr s)) =
        Some (if 0 < v \<and> v \<le> 1 then to_double (v * 100) else Finite v))
   \<and> ((\<forall>c \<in> set s. c < 0x180) \<and> findall_numeric (py_strip s) = raw # rest
      \<and> py_float (fix_separators raw) = Some (Finite v) \<and> 1 < v \<longrightarrow>
      fst (parse_commission_to_float (PyStr s)) = Some (Finite v))
   \<and> ((\<forall>c \<in> set s. c < 0x180) \<and> findall_numeric (py_strip s) = raw # rest
      \<and> py_float (fix_separators raw) = Some Infinity \<longrightarrow>
      fst (parse_commission_to_float (PyStr s)) = Some Infinity)
   \<and> parse_commission_to_float (PyStr (u ''0,18'')) = (Some (Finite 18), [])"
proof (intro conjI impI)
  assume h: "(\<forall>c \<in> set s. c < 0x180) \<and> findall_numeric (py_strip s) = raw # rest
      \<and> py_float (fix_separators raw) = Some (Finite v)"
  then have r: "findall_numeric (py_strip s) = raw # rest"
    and f: "py_float (fix_separators raw) = Some (Finite v)" by blast+
  show "fst (parse_commission_to_float (PyStr s)) =
        Some (if 0 < v \<and> v \<le> 1 then to_double (v * 100) else Finite v)"
    unfolding fst_parse_of_run[OF r] f by (simp add: scale_correction_def)
next
  assume h: "(\<forall>c \<in> set s. c < 0x180) \<and> findall_numeric (py_strip s) = raw # rest
      \<and> py_float (fix_separators raw) = Some (Finite v) \<and> 1 < v"
  then have r: "findall_numeric (py_strip s) = raw # rest"
    and f: "py_float (fix_separators raw) = Some (Finite v)" and v: "1 < v" by blast+
  show "fst (parse_commission_to_float (PyStr s)) = Some (Finite v)"
    unfolding fst_parse_of_run[OF r] f by (simp add: scale_correction_above_1[OF v])
next
  assume h: "(\<forall>c \<in> set s. c < 0x180) \<and> findall_numeric (py_strip s) = raw # rest
      \<and> py_float (fix_separators raw) = Some Infinity"
  then have r: "findall_numeric (py_strip s) = raw # rest"
    and f: "py_float (fix_separators raw) = Some Infinity" by blast+
  show "fst (parse_commission_to_float (PyStr s)) = Some Infinity"
    unfolding fst_parse_of_run[OF r] f by (simp add: scale_correction_def)
next
  show "parse_commission_to_float (PyStr (u ''0,18'')) = (Some (Finite 18), [])"
    by (rule parse_fraction)
qed

theorem parse_scale_correction_witness:
  "list_all (\<lambda>c. c < 0x180) (u ''0,18'')
   \<and> findall_numeric (py_strip (u ''0,18'')) = [u ''0,18'']
   \<and> py_float (fix_separators (u ''0,18'')) = Some (Finite (3242591731706757 / 18014398509481984))
   \<and> fst (parse_commission_to_float (PyStr (u ''0,18''))) = Some (Finite 18)
   \<and> list_all (\<lambda>c. c < 0x180) (u ''%18,5'')
   \<and> findall_numeric (py_strip (u ''%18,5'')) = [u ''18,5'']
   \<and> py_float (fix_separators (u ''18,5'')) = Some (Finite (37 / 2))
   \<and> fst (parse_commission_to_float (PyStr (u ''%18,5''))) = Some (Finite (37 / 2))"
proof -
  have sa: "list_all (\<lambda>c. c < 0x180) (u ''0,18'')" by (simp add: u_def)
  have sb: "list_all (\<lambda>c. c < 0x180) (u ''%18,5'')" by (simp add: u_def)
  have ha: "(\<forall>c \<in> set (u ''0,18''). c < 0x180)
           \<and> findall_numeric (py_strip (u ''0,18'')) = u ''0,18'' # []
           \<and> py_float (fix_separators (u ''0,18'')) =
               Some (Finite (3242591731706757 / 18014398509481984))"
    using sa run_fraction float_fraction unfolding list_all_iff by (intro conjI)
  have big: "(1 :: rat) < 37 / 2" by simp
  have hb: "(\<forall>c \<in> set (u ''%18,5''). c < 0x180)
           \<and> findall_numeric (py_strip (u ''%18,5'')) = u ''18,5'' # []
           \<and> py_float (fix_separators (u ''18,5'')) = Some (Finite (37 / 2)) \<and> (1 :: rat) < 37 / 2"
    using sb run_percent_18_5 float_18_5 big unfolding list_all_iff by (intro conjI)
  note ta = parse_scale_correction[of "u ''0,18''" "u ''0,18''" "[]"
      "3242591731706757 / 18014398509481984"]
  note tb = parse_scale_correction[of "u ''%18,5''" "u ''18,5''" "[]" "37 / 2"]
  have fr: "0 < (3242591731706757 / 18014398509481984 :: rat)
            \<and> (3242591731706757 / 18014398509481984 :: rat) \<le> 1" by simp
  have pr: "(3242591731706757 / 18014398509481984 :: rat) * 100
            = 81064793292668925 / 4503599627370496" by simp
  from ta[THEN conjunct1, THEN mp, OF ha]
  have ra: "fst (parse_commission_to_float (PyStr (u ''0,18''))) = Some (Finite 18)"
    unfolding if_P[OF fr] pr to_double_0_18_times_100 .
  from tb[THEN conjunct2, THEN conjunct1, THEN mp, OF hb]
  have rb: "fst (parse_commission_to_float (PyStr (u ''%18,5''))) = Some (Finite (37 / 2))" .
  from sa run_fraction float_fraction ra sb run_percent_18_5 float_18_5 rb
  show ?thesis by (intro conjI)
qed

section \<open>Reconciliation: results\<close>

lemma pick_first_present_None:
  "pick_first_present df cs = None \<longleftrightarrow> set cs \<inter> set (columns df) = {}"
  by (auto simp: pick_first_present_def find_None_iff)

lemma pick_first_present_Some:
  "pick_first_present df cs = Some c \<Longrightarrow> c \<in> set cs \<and> c \<in> set (columns df)"
  by (auto simp: pick_first_present_def find_Some_iff)

lemma or_empty_pick_nonempty:
  "[] \<notin> set cs \<Longrightarrow> or_empty (pick_first_present df cs) = [] \<longleftrightarrow> pick_first_present df cs = None"
  by (cases "pick_first_present df cs") (auto simp: or_empty_def dest: pick_first_present_Some)

lemma normalize_to_flat4_raises_iff:
  "(\<exists>e. normalize_to_flat4 df cands = Inl e) \<longleftrightarrow>
     or_empty (pick_first_present df (product_group cands)) = [] \<or>
     (or_empty (pick_first_present df (category cands)) = [] \<and>
      or_empty (pick_first_present df (sub_category cands)) = [])"
  by (auto simp: normalize_to_flat4_def Let_def)

lemma set_keep_first: "set (keep_first xs) = set xs"
  by (simp add: keep_first_def)

lemma normalize_to_flat4_row:
  assumes "normalize_to_flat4 df cands = Inr out" and "r \<in> set out"
  shows "(kategori r \<noteq> [] \<or> alt_kategori r \<noteq> [] \<or> urun_grubu r \<noteq> []) \<and>
         (\<exists>row \<in> set (rows df). \<exists>v.
            r = flat4_row (or_empty (pick_first_present df (category cands)))
                  (or_empty (pick_first_present df (sub_category cands)))
                  (or_empty (pick_first_present df (product_group cands))) row v)"
proof -
  define vals where "vals =
     (if or_empty (pick_first_present df (commission cands)) \<noteq> []
      then fix_scale (map (\<lambda>row. extract_number
             (row (or_empty (pick_first_present df (commission cands))))) (rows df))
      else replicate (length (rows df)) None)"
  have out:
    "out = keep_first (filter (\<lambda>r. kategori r \<noteq> [] \<or> alt_kategori r \<noteq> [] \<or> urun_grubu r \<noteq> [])
       (map (\<lambda>(row, v). flat4_row (or_empty (pick_first_present df (category cands)))
                  (or_empty (pick_first_present df (sub_category cands)))
                  (or_empty (pick_first_present df (product_group cands))) row v)
          (zip (rows df) vals)))"
    using assms(1) unfolding normalize_to_flat4_def Let_def vals_def
    by (simp split: if_splits)
  from assms(2) have nonempty: "kategori r \<noteq> [] \<or> alt_kategori r \<noteq> [] \<or> urun_grubu r \<noteq> []"
    unfolding out set_keep_first by simp
  from assms(2) obtain row v where "(row, v) \<in> set (zip (rows df) vals)"
    and "r = flat4_row (or_empty (pick_first_present df (category cands)))
                  (or_empty (pick_first_present df (sub_category cands)))
                  (or_empty (pick_first_present df (product_group cands))) row v"
    unfolding out set_keep_first by auto
  then show ?thesis using nonempty by (auto dest: set_zip_leftD)
qed

lemma normalize_to_flat4_resolved:
  assumes "or_empty (pick_first_present df (category cands)) = c"
    and "or_empty (pick_first_present df (sub_category cands)) = s"
    and "or_empty (pick_first_present df (product_group cands)) = g"
    and "or_empty (pick_first_present df (commission cands)) = m"
    and "g \<noteq> []" and "c \<noteq> [] \<or> s \<noteq> []"
    and "(if m \<noteq> [] then fix_scale (map (\<lambda>row. extract_number (row m)) (rows df))
          else replicate (length (rows df)) None) = vals"
  shows "normalize_to_flat4 df cands =
     Inr (keep_first (filter (\<lambda>r. kategori r \<noteq> [] \<or> alt_kategori r \<noteq> [] \<or> urun_grubu r \<noteq> [])
            (map (\<lambda>(row, v). flat4_row c s g row v) (zip (rows df) vals))))"
  using assms unfolding normalize_to_flat4_def Let_def by auto

lemmas number_eval = extract_number_def py_replace_def first_decimal_def is_digit_def decimal_value_def
  digits_value_def fix_scale_def quantile95_def

lemma mixed_table_flat4:
  "normalize_to_flat4 mixed_table (columns_candidates N11) =
     Inr [\<lparr>kategori = u ''Ev'', alt_kategori = u ''Mutfak'', urun_grubu = u ''Tava'',
          komisyon = Some 8\<rparr>]"
proof -
  have c: "or_empty (pick_first_present mixed_table (category (columns_candidates N11))) = u ''Kategori''"
    by (simp add: pick_first_present_def or_empty_def mixed_table_def u_def Urun_Grubu_tr_def)
  have s: "or_empty (pick_first_present mixed_table (sub_category (columns_candidates N11))) = u ''Alt Kategori''"
    by (simp add: pick_first_present_def or_empty_def mixed_table_def u_def Urun_Grubu_tr_def)
  have g: "or_empty (pick_first_present mixed_table (product_group (columns_candidates N11))) = Urun_Grubu_tr"
    by (simp add: pick_first_present_def or_empty_def mixed_table_def u_def Urun_Grubu_tr_def)
  have m: "or_empty (pick_first_present mixed_table (commission (columns_candidates N11))) = u ''Komisyon_%_KDV_Dahil''"
    by (simp add: pick_first_present_def or_empty_def mixed_table_def u_def Urun_Grubu_tr_def)
  have v: "(if u ''Komisyon_%_KDV_Dahil'' \<noteq> []
            then fix_scale (map (\<lambda>row. extract_number (row (u ''Komisyon_%_KDV_Dahil''))) (rows mixed_table))
            else replicate (length (rows mixed_table)) None) = [Some 8, None]"
    by (simp add: mixed_table_def u_def Urun_Grubu_tr_def py_strip_def is_space_def number_eval)
  have "normalize_to_flat4 mixed_table (columns_candidates N11) =
     Inr (keep_first (filter (\<lambda>r. kategori r \<noteq> [] \<or> alt_kategori r \<noteq> [] \<or> urun_grubu r \<noteq> [])
            (map (\<lambda>(row, v). flat4_row (u ''Kategori'') (u ''Alt Kategori'') Urun_Grubu_tr row v)
               (zip (rows mixed_table) [Some 8, None]))))"
    by (rule normalize_to_flat4_resolved[OF c s g m _ _ v]) (simp_all add: u_def Urun_Grubu_tr_def)
  also have "\<dots> = Inr [\<lparr>kategori = u ''Ev'', alt_kategori = u ''Mutfak'', urun_grubu = u ''Tava'',
          komisyon = Some 8\<rparr>]"
    by (simp add: mixed_table_def flat4_row_def u_def Urun_Grubu_tr_def py_strip_def is_space_def
        keep_first_def)
  finally show ?thesis .
qed

lemma flat_category_table_flat4:
  "normalize_to_flat4 flat_category_table (columns_candidates Trendyol) =
     Inr [\<lparr>kategori = u ''Elektronik'', alt_kategori = [], urun_grubu = u ''Telefon'',
          komisyon = Some 15\<rparr>]"
proof -
  have c: "or_empty (pick_first_present flat_category_table (category (columns_candidates Trendyol))) = u ''Kategori''"
    by (simp add: pick_first_present_def or_empty_def flat_category_table_def u_def Urun_Grubu_tr_def)
  have s: "or_empty (pick_first_present flat_category_table (sub_category (columns_candidates Trendyol))) = u ''Kategori''"
    by (simp add: pick_first_present_def or_empty_def flat_category_table_def u_def Urun_Grubu_tr_def)
  have g: "or_empty (pick_first_present flat_category_table (product_group (columns_candidates Trendyol))) = Urun_Grubu_tr"
    by (simp add: pick_first_present_def or_empty_def flat_category_table_def u_def Urun_Grubu_tr_def)
  have m: "or_empty (pick_first_present flat_category_table (commission (columns_candidates Trendyol))) = u ''komisyon''"
    by (simp add: pick_first_present_def or_empty_def flat_category_table_def u_def Urun_Grubu_tr_def)
  have v: "(if u ''komisyon'' \<noteq> []
            then fix_scale (map (\<lambda>row. extract_number (row (u ''komisyon''))) (rows flat_category_table))
            else replicate (length (rows flat_category_table)) None) = [Some 15]"
    by (simp add: flat_category_table_def u_def Urun_Grubu_tr_def py_strip_def is_space_def number_eval)
  have "normalize_to_flat4 flat_category_table (columns_candidates Trendyol) =
     Inr (keep_first (filter (\<lambda>r. kategori r \<noteq> [] \<or> alt_kategori r \<noteq> [] \<or> urun_grubu r \<noteq> [])
            (map (\<lambda>(row, v). flat4_row (u ''Kategori'') (u ''Kategori'') Urun_Grubu_tr row v)
               (zip (rows flat_category_table) [Some 15]))))"
    by (rule normalize_to_flat4_resolved[OF c s g m _ _ v]) (simp_all add: u_def Urun_Grubu_tr_def)
  also have "\<dots> = Inr [\<lparr>kategori = u ''Elektronik'', alt_kategori = [], urun_grubu = u ''Telefon'',
          komisyon = Some 15\<rparr>]"
    by (simp add: flat_category_table_def flat4_row_def u_def Urun_Grubu_tr_def py_strip_def is_space_def
        keep_first_def)
  finally show ?thesis .
qed

lemma marketplace_aliases_nonempty:
  "[] \<notin> set (category (columns_candidates mp)) \<union> set (sub_category (columns_candidates mp))
        \<union> set (product_group (columns_candidates mp))"
  by (cases mp) (simp_all add: u_def Urun_Grubu_tr_def)

text \<open>
  C3. With alias candidates that are names (none of them the empty text),
  \<open>_normalize_to_flat4\<close> raises \<open>ValueError\<close> exactly when no product-group candidate
  is a column of the table, or no category candidate and no sub-category candidate is.
  Whatever the candidates are, a table with none of the product-group candidates
  among its columns raises.
\<close>

theorem reconcile_raises_iff_required_column_missing:
  "([] \<notin> set (category cands) \<union> set (sub_category cands) \<union> set (product_group cands) \<longrightarrow>
      ((\<exists>e. normalize_to_flat4 df cands = Inl e) \<longleftrightarrow>
         pick_first_present df (product_group cands) = None \<or>
         (pick_first_present df (category cands) = None \<and>
          pick_first_present df (sub_category cands) = None)))
   \<and> (set (product_group cands) \<inter> set (columns df) = {} \<longrightarrow>
        (\<exists>e. normalize_to_flat4 df cands = Inl e))"
proof (intro conjI impI)
  assume "[] \<notin> set (category cands) \<union> set (sub_category cands) \<union> set (product_group cands)"
  then show "(\<exists>e. normalize_to_flat4 df cands = Inl e) \<longleftrightarrow>
         pick_first_present df (product_group cands) = None \<or>
         (pick_first_present df (category cands) = None \<and>
          pick_first_present df (sub_category cands) = None)"
    by (simp add: normalize_to_flat4_raises_iff or_empty_pick_nonempty)
next
  assume "set (product_group cands) \<inter> set (columns df) = {}"
  then have "pick_first_present df (product_group cands) = None"
    by (simp add: pick_first_present_None)
  then show "\<exists>e. normalize_to_flat4 df cands = Inl e"
    by (simp add: normalize_to_flat4_raises_iff or_empty_def)
qed

theorem reconcile_raises_iff_required_column_missing_witness:
  "[] \<notin> set (category (columns_candidates Pttavm)) \<union> set (sub_category (columns_candidates Pttavm))
        \<union> set (product_group (columns_candidates Pttavm))
   \<and> set (product_group (columns_candidates Pttavm)) \<inter> set (columns no_group_table) = {}
   \<and> pick_first_present no_group_table (product_group (columns_candidates Pttavm)) = None
   \<and> (\<exists>e. normalize_to_flat4 no_group_table (columns_candidates Pttavm) = Inl e)"
proof -
  have a: "[] \<notin> set (category (columns_candidates Pttavm))
             \<union> set (sub_category (columns_candidates Pttavm))
             \<union> set (product_group (columns_candidates Pttavm))"
    by (simp add: u_def Urun_Grubu_tr_def)
  have b: "set (product_group (columns_candidates Pttavm)) \<inter> set (columns no_group_table) = {}"
    by (simp add: no_group_table_def u_def Urun_Grubu_tr_def)
  have c: "pick_first_present no_group_table (product_group (columns_candidates Pttavm)) = None"
    by (simp add: pick_first_present_def no_group_table_def u_def Urun_Grubu_tr_def)
  from reconcile_raises_iff_required_column_missing[of "columns_candidates Pttavm" no_group_table] a c
  have "\<exists>e. normalize_to_flat4 no_group_table (columns_candidates Pttavm) = Inl e"
    by blast
  moreover
  from reconcile_raises_iff_required_column_missing[of "columns_candidates Pttavm" no_group_table] b
  have "\<exists>e. normalize_to_flat4 no_group_table (columns_candidates Pttavm) = Inl e"
    by blast
  ultimately show ?thesis using a b c by blast
qed

text \<open>
  C4 as the specification states it (no record of the output has an empty product
  group) fails: the filter of \<open>_normalize_to_flat4\<close> drops a row only when its category,
  sub-category and product group are all empty. A row with a category and a blank
  product group stays, with the product group empty.
\<close>

theorem reconcile_keeps_empty_product_group:
  "normalize_to_flat4 blank_group_table (columns_candidates Trendyol) =
     Inr [\<lparr>kategori = u ''Ev'', alt_kategori = [], urun_grubu = [], komisyon = None\<rparr>]"
  by (simp add: normalize_to_flat4_def blank_group_table_def pick_first_present_def or_empty_def
      flat4_row_def u_def Urun_Grubu_tr_def py_strip_def is_space_def keep_first_def)

text \<open>
  C4, amended. Every record of the output has a non-empty category, sub-category or
  product group: the rows whose three text fields are all empty after trimming are the
  ones dropped.
\<close>

theorem reconcile_rows_not_all_empty:
  "normalize_to_flat4 df cands = Inr out \<Longrightarrow>
   \<forall>r \<in> set out. kategori r \<noteq> [] \<or> alt_kategori r \<noteq> [] \<or> urun_grubu r \<noteq> []"
  using normalize_to_flat4_row[of df cands out] by blast

theorem reconcile_rows_not_all_empty_witness:
  "normalize_to_flat4 mixed_table (columns_candidates N11) =
     Inr [\<lparr>kategori = u ''Ev'', alt_kategori = u ''Mutfak'', urun_grubu = u ''Tava'',
          komisyon = Some 8\<rparr>]
   \<and> \<not> (kategori \<lparr>kategori = u ''Ev'', alt_kategori = u ''Mutfak'', urun_grubu = u ''Tava'',
          komisyon = Some 8\<rparr> = [] \<and>
        alt_kategori \<lparr>kategori = u ''Ev'', alt_kategori = u ''Mutfak'', urun_grubu = u ''Tava'',
          komisyon = Some 8\<rparr> = [] \<and>
        urun_grubu \<lparr>kategori = u ''Ev'', alt_kategori = u ''Mutfak'', urun_grubu = u ''Tava'',
          komisyon = Some 8\<rparr> = [])"
proof -
  have a: "normalize_to_flat4 mixed_table (columns_candidates N11) =
     Inr [\<lparr>kategori = u ''Ev'', alt_kategori = u ''Mutfak'', urun_grubu = u ''Tava'',
          komisyon = Some 8\<rparr>]"
    by (rule mixed_table_flat4)
  from reconcile_rows_not_all_empty[OF a]
  have "\<forall>r \<in> set [\<lparr>kategori = u ''Ev'', alt_kategori = u ''Mutfak'', urun_grubu = u ''Tava'',
          komisyon = Some 8\<rparr>]. kategori r \<noteq> [] \<or> alt_kategori r \<noteq> [] \<or> urun_grubu r \<noteq> []" .
  then have "\<not> (kategori \<lparr>kategori = u ''Ev'', alt_kategori = u ''Mutfak'', urun_grubu = u ''Tava'',
          komisyon = Some 8\<rparr> = [] \<and>
        alt_kategori \<lparr>kategori = u ''Ev'', alt_kategori = u ''Mutfak'', urun_grubu = u ''Tava'',
          komisyon = Some 8\<rparr> = [] \<and>
        urun_grubu \<lparr>kategori = u ''Ev'', alt_kategori = u ''Mutfak'', urun_grubu = u ''Tava'',
          komisyon = Some 8\<rparr> = [])"
    by (metis list.set_intros(1))
  with a show ?thesis by (rule conjI)
qed

text \<open>
  C8. When the category and the sub-category resolve to the same column of the table,
  every record of the output has an empty sub-category, and its category is the
  trimmed cell of that column in a row of the table.
\<close>

theorem reconcile_same_column_leaves_sub_category_empty:
  "normalize_to_flat4 df cands = Inr out \<Longrightarrow>
   pick_first_present df (category cands) = Some c \<Longrightarrow>
   pick_first_present df (sub_category cands) = Some c \<Longrightarrow>
   \<forall>r \<in> set out. alt_kategori r = [] \<and> (\<exists>row \<in> set (rows df). kategori r = py_strip (row c))"
proof
  fix r
  assume h: "normalize_to_flat4 df cands = Inr out"
    "pick_first_present df (category cands) = Some c"
    "pick_first_present df (sub_category cands) = Some c"
    and r: "r \<in> set out"
  from normalize_to_flat4_row[OF h(1) r] h(2,3)
  show "alt_kategori r = [] \<and> (\<exists>row \<in> set (rows df). kategori r = py_strip (row c))"
    by (auto simp: or_empty_def flat4_row_def Let_def split: if_splits)
qed

theorem reconcile_same_column_leaves_sub_category_empty_witness:
  "normalize_to_flat4 flat_category_table (columns_candidates Trendyol) =
     Inr [\<lparr>kategori = u ''Elektronik'', alt_kategori = [], urun_grubu = u ''Telefon'',
          komisyon = Some 15\<rparr>]
   \<and> pick_first_present flat_category_table (category (columns_candidates Trendyol))
       = Some (u ''Kategori'')
   \<and> pick_first_present flat_category_table (sub_category (columns_candidates Trendyol))
       = Some (u ''Kategori'')
   \<and> alt_kategori \<lparr>kategori = u ''Elektronik'', alt_kategori = [], urun_grubu = u ''Telefon'',
          komisyon = Some 15\<rparr> = []
   \<and> (\<exists>row \<in> set (rows flat_category_table).
         kategori \<lparr>kategori = u ''Elektronik'', alt_kategori = [], urun_grubu = u ''Telefon'',
          komisyon = Some 15\<rparr> = py_strip (row (u ''Kategori'')))"
proof -
  have a: "normalize_to_flat4 flat_category_table (columns_candidates Trendyol) =
     Inr [\<lparr>kategori = u ''Elektronik'', alt_kategori = [], urun_grubu = u ''Telefon'',
          komisyon = Some 15\<rparr>]"
    by (rule flat_category_table_flat4)
  have b: "pick_first_present flat_category_table (category (columns_candidates Trendyol))
       = Some (u ''Kategori'')"
    by (simp add: flat_category_table_def pick_first_present_def u_def Urun_Grubu_tr_def)
  have c: "pick_first_present flat_category_table (sub_category (columns_candidates Trendyol))
       = Some (u ''Kategori'')"
    by (simp add: flat_category_table_def pick_first_present_def u_def Urun_Grubu_tr_def)
  from reconcile_same_column_leaves_sub_category_empty[OF a b c]
  have "alt_kategori \<lparr>kategori = u ''Elektronik'', alt_kategori = [], urun_grubu = u ''Telefon'',
          komisyon = Some 15\<rparr> = []
     \<and> (\<exists>row \<in> set (rows flat_category_table).
         kategori \<lparr>kategori = u ''Elektronik'', alt_kategori = [], urun_grubu = u ''Telefon'',
          komisyon = Some 15\<rparr> = py_strip (row (u ''Kategori'')))"
    by (metis list.set_intros(1))
  with a b c show ?thesis by blast
qed

section \<open>The search tiers: results\<close>

lemma broad_mask_union:
  "broad_mask q r \<longleftrightarrow> mask_partial q r \<or> mask_category q r"
  by (auto simp: broad_mask_def mask_partial_def mask_category_def)

lemma broad_results_empty:
  assumes "filter (mask_partial q) df = []" and "filter (mask_category q) df = []"
  shows "filter (broad_mask q) df = []"
  using assms by (auto simp: filter_empty_conv broad_mask_union)

lemmas text_eval = normalize_text_def u_def py_lower_def py_strip_def lower_cp_def is_space_def
  translate_def translate_cp_def turkish_map_def maketrans_def

lemma normalize_zzz: "normalize_text (PyStr (u ''zzz'')) = u ''zzz''"
  by (simp add: text_eval)

lemma normalize_kilif_row:
  "kategori_norm kilif_row = u ''elektronik''"
  "alt_kategori_norm kilif_row = u ''telefon''"
  "urun_grubu_norm kilif_row = u ''kilif''"
  by (simp_all add: kategori_norm_def alt_kategori_norm_def urun_grubu_norm_def kilif_row_def
      Kilif_tr_def text_eval)

lemma zzz_masks:
  "\<not> mask_exact (u ''zzz'') kilif_row"
  "\<not> mask_partial (u ''zzz'') kilif_row"
  "\<not> mask_category (u ''zzz'') kilif_row"
  by (simp_all add: mask_exact_def mask_partial_def mask_category_def create_search_pattern_def
      normalize_zzz normalize_kilif_row)
     (simp_all add: u_def occurs_at_def)

lemma normalize_telefon: "normalize_text (PyStr (u ''telefon'')) = u ''telefon''"
  by (simp add: text_eval)

lemma telefon_masks:
  "\<not> mask_exact (u ''telefon'') kilif_row"
  "\<not> mask_partial (u ''telefon'') kilif_row"
  "mask_category (u ''telefon'') kilif_row"
  by (simp_all add: mask_exact_def mask_partial_def mask_category_def create_search_pattern_def
      normalize_telefon normalize_kilif_row)
     (simp_all add: u_def occurs_at_def)

lemma search_products_tiers:
  "search_products gcm df query =
     (if normalize_text (PyStr query) = [] then []
      else if filter (mask_exact (normalize_text (PyStr query))) df \<noteq> []
        then filter (mask_exact (normalize_text (PyStr query))) df
      else if filter (mask_partial (normalize_text (PyStr query))) df \<noteq> []
        then filter (mask_partial (normalize_text (PyStr query))) df
      else if filter (mask_category (normalize_text (PyStr query))) df \<noteq> []
        then filter (mask_category (normalize_text (PyStr query))) df
      else if fuzzy_matches gcm df query \<noteq> [] then fuzzy_results gcm df query
      else [])"
  unfolding search_products_def Let_def
  by (simp add: broad_results_empty)

text \<open>
  C10. The mask of the broad tier is the disjunction of the masks of the partial tier
  and of the category tier, so the broad tier finds nothing once those two have found
  nothing: when the first four tiers are empty the search returns nothing, and a
  non-empty result of the search is the result of one of the first four tiers.
\<close>

theorem broad_tier_never_contributes:
  "(broad_mask q r \<longleftrightarrow> mask_partial q r \<or> mask_category q r)
   \<and> (filter (mask_partial q) df = [] \<and> filter (mask_category q) df = [] \<longrightarrow>
        filter (broad_mask q) df = [])
   \<and> (filter (mask_exact (normalize_text (PyStr query))) df = [] \<and>
       filter (mask_partial (normalize_text (PyStr query))) df = [] \<and>
       filter (mask_category (normalize_text (PyStr query))) df = [] \<and>
       fuzzy_matches gcm df query = [] \<longrightarrow>
        filter (broad_mask (normalize_text (PyStr query))) df = [] \<and>
        search_products gcm df query = [])
   \<and> (search_products gcm df query \<noteq> [] \<longrightarrow>
        search_products gcm df query = filter (mask_exact (normalize_text (PyStr query))) df \<or>
        search_products gcm df query = filter (mask_partial (normalize_text (PyStr query))) df \<or>
        search_products gcm df query = filter (mask_category (normalize_text (PyStr query))) df \<or>
        search_products gcm df query = fuzzy_results gcm df query)"
proof (intro conjI impI)
  show "broad_mask q r \<longleftrightarrow> mask_partial q r \<or> mask_category q r"
    by (rule broad_mask_union)
next
  assume "filter (mask_partial q) df = [] \<and> filter (mask_category q) df = []"
  then show "filter (broad_mask q) df = []" by (simp add: broad_results_empty)
next
  assume "filter (mask_exact (normalize_text (PyStr query))) df = [] \<and>
       filter (mask_partial (normalize_text (PyStr query))) df = [] \<and>
       filter (mask_category (normalize_text (PyStr query))) df = [] \<and>
       fuzzy_matches gcm df query = []"
  then show "filter (broad_mask (normalize_text (PyStr query))) df = []"
    by (simp add: broad_results_empty)
next
  assume "filter (mask_exact (normalize_text (PyStr query))) df = [] \<and>
       filter (mask_partial (normalize_text (PyStr query))) df = [] \<and>
       filter (mask_category (normalize_text (PyStr query))) df = [] \<and>
       fuzzy_matches gcm df query = []"
  then show "search_products gcm df query = []"
    by (simp add: search_products_tiers)
next
  assume "search_products gcm df query \<noteq> []"
  then show "search_products gcm df query = filter (mask_exact (normalize_text (PyStr query))) df \<or>
        search_products gcm df query = filter (mask_partial (normalize_text (PyStr query))) df \<or>
        search_products gcm df query = filter (mask_category (normalize_text (PyStr query))) df \<or>
        search_products gcm df query = fuzzy_results gcm df query"
    by (simp add: search_products_tiers split: if_splits)
qed

theorem broad_tier_never_contributes_witness:
  "filter (mask_exact (normalize_text (PyStr (u ''zzz'')))) [kilif_row] = []
   \<and> filter (mask_partial (normalize_text (PyStr (u ''zzz'')))) [kilif_row] = []
   \<and> filter (mask_category (normalize_text (PyStr (u ''zzz'')))) [kilif_row] = []
   \<and> fuzzy_matches no_close_matches [kilif_row] (u ''zzz'') = []
   \<and> filter (broad_mask (normalize_text (PyStr (u ''zzz'')))) [kilif_row] = []
   \<and> search_products no_close_matches [kilif_row] (u ''zzz'') = []
   \<and> search_products no_close_matches [kilif_row] (u ''telefon'') = [kilif_row]
   \<and> search_products no_close_matches [kilif_row] (u ''telefon'')
       = filter (mask_category (normalize_text (PyStr (u ''telefon'')))) [kilif_row]"
proof -
  have a: "filter (mask_exact (normalize_text (PyStr (u ''zzz'')))) [kilif_row] = [] \<and>
       filter (mask_partial (normalize_text (PyStr (u ''zzz'')))) [kilif_row] = [] \<and>
       filter (mask_category (normalize_text (PyStr (u ''zzz'')))) [kilif_row] = [] \<and>
       fuzzy_matches no_close_matches [kilif_row] (u ''zzz'') = []"
    by (simp add: normalize_zzz zzz_masks fuzzy_matches_def no_close_matches_def)
  from a broad_tier_never_contributes[of _ _ "[kilif_row]" "u ''zzz''" no_close_matches]
  have b: "filter (broad_mask (normalize_text (PyStr (u ''zzz'')))) [kilif_row] = [] \<and>
        search_products no_close_matches [kilif_row] (u ''zzz'') = []"
    by blast
  have c: "search_products no_close_matches [kilif_row] (u ''telefon'') = [kilif_row]"
    by (simp add: search_products_tiers normalize_telefon telefon_masks) (simp add: u_def)
  have d: "filter (mask_exact (normalize_text (PyStr (u ''telefon'')))) [kilif_row] = []"
       "filter (mask_partial (normalize_text (PyStr (u ''telefon'')))) [kilif_row] = []"
       "fuzzy_results no_close_matches [kilif_row] (u ''telefon'') = []"
    by (simp_all add: normalize_telefon telefon_masks fuzzy_results_def fuzzy_matches_def
        no_close_matches_def)
  from c broad_tier_never_contributes[of _ _ "[kilif_row]" "u ''telefon''" no_close_matches]
  have "search_products no_close_matches [kilif_row] (u ''telefon'')
       = filter (mask_category (normalize_text (PyStr (u ''telefon'')))) [kilif_row]"
    unfolding d by (metis list.discI)
  with a b c show ?thesis by blast
qed

text \<open>
  The first tier wins whenever it finds a row. Its pattern is built from the normalised
  query normalised once more; when that second normalisation changes nothing, the rows
  returned are exactly those whose normalised product group holds the normalised query
  between word boundaries.
\<close>

lemma exact_tier_wins:
  assumes "normalize_text (PyStr query) \<noteq> []"
    and "filter (mask_exact (normalize_text (PyStr query))) df \<noteq> []"
  shows "search_products gcm df query = filter (mask_exact (normalize_text (PyStr query))) df"
  using assms by (simp add: search_products_tiers)

lemma exact_tier_wins_stable_query:
  assumes "normalize_text (PyStr query) \<noteq> []"
    and "normalize_text (PyStr (normalize_text (PyStr query))) = normalize_text (PyStr query)"
    and "\<exists>r \<in> set df. re_search (WordBounded (normalize_text (PyStr query))) (urun_grubu_norm r)"
  shows "search_products gcm df query =
     filter (\<lambda>r. re_search (WordBounded (normalize_text (PyStr query))) (urun_grubu_norm r)) df"
proof -
  have m: "mask_exact (normalize_text (PyStr query)) =
     (\<lambda>r. re_search (WordBounded (normalize_text (PyStr query))) (urun_grubu_norm r))"
    by (simp add: mask_exact_def create_search_pattern_def assms(2) fun_eq_iff)
  from assms(3) have "filter (mask_exact (normalize_text (PyStr query))) df \<noteq> []"
    unfolding m by (auto simp: filter_empty_conv)
  from exact_tier_wins[OF assms(1) this] show ?thesis unfolding m .
qed

lemma normalize_noene: "normalize_text (PyStr noene_query) = u ''none''"
  by (simp add: noene_query_def text_eval)

lemma normalize_none: "normalize_text (PyStr (u ''none'')) = []"
  by (simp add: text_eval)

lemma normalize_none_tava_row: "urun_grubu_norm none_tava_row = u ''none tava''"
  by (simp add: urun_grubu_norm_def none_tava_row_def text_eval)

lemma empty_word_pattern_matches:
  "re_search (WordBounded []) (u ''kilif'')" "re_search (WordBounded []) (u ''none tava'')"
  by code_simp+

lemma none_word_matches:
  "re_search (WordBounded (u ''none'')) (u ''none tava'')"
  "\<not> re_search (WordBounded (u ''none'')) (u ''kilif'')"
  by code_simp+

text \<open>
  C2. The specification says that a query whose normalised form stands as a whole word
  in some product group gets exactly the rows where it does. For the query "none"
  written with o-diaeresis the normalised form is \<open>none\<close>, a whole word of the product
  group of \<open>none_tava_row\<close> and not of \<open>kilif_row\<close>; \<open>create_search_pattern\<close>
  normalises \<open>none\<close> again, to the empty text, the pattern \<open>\b\b\<close> matches every product
  group with a word in it, and the search returns both rows.
\<close>

theorem search_noene_returns_rows_without_the_word:
  "normalize_text (PyStr noene_query) = u ''none''
   \<and> re_search (WordBounded (normalize_text (PyStr noene_query))) (urun_grubu_norm none_tava_row)
   \<and> \<not> re_search (WordBounded (normalize_text (PyStr noene_query))) (urun_grubu_norm kilif_row)
   \<and> create_search_pattern (normalize_text (PyStr noene_query)) True = WordBounded []
   \<and> search_products gcm [kilif_row, none_tava_row] noene_query = [kilif_row, none_tava_row]"
proof -
  have p: "create_search_pattern (u ''none'') True = WordBounded []"
    by (simp add: create_search_pattern_def normalize_none)
  have m: "mask_exact (u ''none'') kilif_row" "mask_exact (u ''none'') none_tava_row"
    by (simp_all add: mask_exact_def p normalize_kilif_row normalize_none_tava_row
        empty_word_pattern_matches del: re_search.simps)
  have ne: "u ''none'' \<noteq> []" by (simp add: u_def)
  have "search_products gcm [kilif_row, none_tava_row] noene_query = [kilif_row, none_tava_row]"
    by (simp add: search_products_tiers normalize_noene ne m)
  then show ?thesis
    by (simp add: normalize_noene p normalize_kilif_row normalize_none_tava_row none_word_matches
        del: re_search.simps)
qed

section \<open>The best match: results\<close>

text \<open>Commissions are compared as \<open>rat option\<close>, where \<open>None\<close> (NaN) is below every
  number: the order in which \<open>max\<close> skips NaN and the descending sort puts NaN last.\<close>

lemma nanmax_ge: "x \<in> set xs \<Longrightarrow> x \<le> nanmax xs"
  by (induction xs) (auto split: option.splits simp: less_eq_option_def max_def)

lemma nanmax_in: "xs \<noteq> [] \<Longrightarrow> nanmax xs \<in> set xs"
proof (induction xs)
  case Nil
  then show ?case by simp
next
  case (Cons x xs)
  show ?case
  proof (cases "xs = []")
    case True
    then show ?thesis by (simp split: option.splits)
  next
    case False
    with Cons.IH have "nanmax xs \<in> set xs" by simp
    then show ?thesis by (auto split: option.splits simp: max_def)
  qed
qed

lemma sorted_le_last: "sorted ys \<Longrightarrow> y \<in> set ys \<Longrightarrow> y \<le> last ys"
  by (induction ys) auto

lemma rev_sort_key_head:
  fixes f :: "'a \<Rightarrow> 'b::linorder"
  assumes "g \<noteq> []"
  shows "\<exists>b rest. rev (sort_key f (rev g)) = b # rest \<and> b \<in> set g \<and> (\<forall>x \<in> set g. f x \<le> f b)"
proof -
  define s where "s = sort_key f (rev g)"
  have st: "set s = set g" unfolding s_def by simp
  have ne: "s \<noteq> []"
  proof
    assume "s = []"
    then have "set g = {}" using st by simp
    with assms show False by simp
  qed
  have so: "sorted (map f s)" unfolding s_def by (rule sorted_sort_key)
  have top: "\<forall>x \<in> set g. f x \<le> f (last s)"
  proof
    fix x assume "x \<in> set g"
    then have "f x \<in> set (map f s)" using st by simp
    from sorted_le_last[OF so this] have "f x \<le> last (map f s)" .
    moreover have "last (map f s) = f (last s)" using ne by (rule last_map)
    ultimately show "f x \<le> f (last s)" by simp
  qed
  have "s = butlast s @ [last s]" using ne by simp
  then have "rev s = rev (butlast s @ [last s])" by simp
  then have r: "rev s = last s # rev (butlast s)" by (simp only: rev_append rev.simps append.simps)
  have "last s \<in> set s" using ne by (rule last_in_set)
  then have "last s \<in> set g" using st by simp
  with r top show ?thesis unfolding s_def by blast
qed

lemma sort_values_desc_head:
  assumes "g \<noteq> []"
  shows "\<exists>b rest. sort_values_desc g = b # rest \<and> b \<in> set g \<and> (\<forall>x \<in> set g. snd x \<le> snd b)"
  unfolding sort_values_desc_def using assms by (rule rev_sort_key_head)

lemma set_groupby_max:
  "set (groupby_max results) =
     (\<lambda>k. (k, nanmax (map komisyon (filter (\<lambda>r. key_of r = k) results)))) ` key_of ` set results"
  by (simp add: groupby_max_def)

lemma get_best_match_is_max:
  assumes "results \<noteq> []"
  shows "\<exists>k c. get_best_match results = Some (k, c) \<and> k \<in> key_of ` set results
           \<and> c = nanmax (map komisyon (filter (\<lambda>r. key_of r = k) results))
           \<and> c \<in> komisyon ` {r \<in> set results. key_of r = k}
           \<and> (\<forall>k' \<in> key_of ` set results.
                 nanmax (map komisyon (filter (\<lambda>r. key_of r = k') results)) \<le> c)
           \<and> (\<forall>r \<in> set results. komisyon r \<le> c)"
proof -
  let ?agg = "\<lambda>k. nanmax (map komisyon (filter (\<lambda>r. key_of r = k) results))"
  from assms have "groupby_max results \<noteq> []"
    by (auto simp: groupby_max_def dest: arg_cong[where f = set])
  from sort_values_desc_head[OF this] obtain b rest where
    b: "sort_values_desc (groupby_max results) = b # rest" "b \<in> set (groupby_max results)"
       "\<forall>x \<in> set (groupby_max results). snd x \<le> snd b"
    by blast
  from b(2) obtain k where k: "k \<in> key_of ` set results" "b = (k, ?agg k)"
    unfolding set_groupby_max by auto
  have best: "get_best_match results = Some (k, ?agg k)"
    using assms b(1) k(2) by (simp add: get_best_match_def)
  from k(1) have "filter (\<lambda>r. key_of r = k) results \<noteq> []"
    by (auto simp: filter_empty_conv)
  then have "?agg k \<in> set (map komisyon (filter (\<lambda>r. key_of r = k) results))"
    by (intro nanmax_in) simp
  then have obs: "?agg k \<in> komisyon ` {r \<in> set results. key_of r = k}" by auto
  have top: "\<forall>r \<in> set results. komisyon r \<le> ?agg k"
  proof
    fix r assume r: "r \<in> set results"
    then have "komisyon r \<le> ?agg (key_of r)" by (intro nanmax_ge) auto
    also from r have "(key_of r, ?agg (key_of r)) \<in> set (groupby_max results)"
      unfolding set_groupby_max by blast
    with b(3) k(2) have "?agg (key_of r) \<le> ?agg k" by fastforce
    finally show "komisyon r \<le> ?agg k" .
  qed
  have grp: "\<forall>k' \<in> key_of ` set results. ?agg k' \<le> ?agg k"
  proof
    fix k' assume "k' \<in> key_of ` set results"
    then have "(k', ?agg k') \<in> set (groupby_max results)"
      unfolding set_groupby_max by blast
    with b(3) k(2) show "?agg k' \<le> ?agg k" by fastforce
  qed
  from best k(1) obs grp top show ?thesis by blast
qed

lemma best_of_akilli:
  "get_best_match [akilli_15, akilli_18] =
     Some ((u ''Elektronik'', u ''Telefon'', Akilli_Telefon_tr), Some 18)"
  by (simp add: get_best_match_def groupby_max_def sort_values_desc_def key_of_def
      akilli_15_def akilli_18_def)

text \<open>
  C1. For a non-empty result set, \<open>get_best_match\<close> returns a key of the set together
  with the largest commission of the rows of that key (a commission that one of these
  rows has), and no group's largest commission, hence no row's commission, is above
  it. For the two rows of one key with commissions 15 and 18 it returns 18.
\<close>

theorem best_match_is_group_maximum:
  "(results \<noteq> [] \<longrightarrow>
      (\<exists>k c. get_best_match results = Some (k, c) \<and> k \<in> key_of ` set results
           \<and> c = nanmax (map komisyon (filter (\<lambda>r. key_of r = k) results))
           \<and> c \<in> komisyon ` {r \<in> set results. key_of r = k}
           \<and> (\<forall>k' \<in> key_of ` set results.
                 nanmax (map komisyon (filter (\<lambda>r. key_of r = k') results)) \<le> c)
           \<and> (\<forall>r \<in> set results. komisyon r \<le> c)))
   \<and> get_best_match [akilli_15, akilli_18] =
         Some ((u ''Elektronik'', u ''Telefon'', Akilli_Telefon_tr), Some 18)"
  using get_best_match_is_max[of results] best_of_akilli by blast

theorem best_match_is_group_maximum_witness:
  "[akilli_15, kilif_row, akilli_18] \<noteq> []
   \<and> get_best_match [akilli_15, kilif_row, akilli_18] =
         Some ((u ''Elektronik'', u ''Telefon'', Akilli_Telefon_tr), Some 18)"
proof -
  let ?rs = "[akilli_15, kilif_row, akilli_18]"
  have ne: "?rs \<noteq> []" by simp
  from best_match_is_group_maximum[of ?rs] ne obtain k c where
    b: "get_best_match ?rs = Some (k, c)"
       "c \<in> komisyon ` {r \<in> set ?rs. key_of r = k}"
       "\<forall>r \<in> set ?rs. komisyon r \<le> c"
    by blast
  from b(3) have "komisyon akilli_18 \<le> c" by simp
  then have ge: "Some 18 \<le> c" by (simp add: akilli_18_def)
  from b(2) obtain r where r: "r \<in> set ?rs" "key_of r = k" "komisyon r = c" by auto
  from r(1,3) ge have "r = akilli_18"
    by (auto simp: akilli_15_def kilif_row_def akilli_18_def)
  with r(2,3) have "k = (u ''Elektronik'', u ''Telefon'', Akilli_Telefon_tr)" "c = Some 18"
    by (simp_all add: key_of_def akilli_18_def)
  with b(1) ne show ?thesis by simp
qed

section \<open>Normalising a normal form\<close>

lemma lower_cp_AZ: "0x41 \<le> d \<Longrightarrow> d \<le> 0x5A \<Longrightarrow> lower_cp d = [d + 32]"
  by (simp add: lower_cp_def)

lemma lower_cp_latin1: "0xC0 \<le> d \<Longrightarrow> d \<le> 0xDE \<Longrightarrow> d \<noteq> 0xD7 \<Longrightarrow> lower_cp d = [d + 32]"
  by (simp add: lower_cp_def)

lemma lower_cp_az: "0x61 \<le> c \<Longrightarrow> c \<le> 0x7A \<Longrightarrow> lower_cp c = [c]"
  by (simp add: lower_cp_def)

lemma lower_cp_latin1_small: "0xDF \<le> c \<Longrightarrow> c \<le> 0xFF \<Longrightarrow> lower_cp c = [c]"
  by (simp add: lower_cp_def)

lemma lower_cp_consts: "lower_cp 0x69 = [0x69]" "lower_cp 0x307 = [0x307]" "lower_cp 0xFF = [0xFF]"
  "lower_cp 0x130 = [0x69, 0x307]" "lower_cp 0x178 = [0xFF]" "lower_cp 32 = [32]"
  by (simp_all add: lower_cp_def)

lemma lower_cp_even_range:
  "0x100 \<le> d \<and> d \<le> 0x137 \<or> 0x14A \<le> d \<and> d \<le> 0x177 \<Longrightarrow> d \<noteq> 0x130 \<Longrightarrow>
   lower_cp d = (if even d then [d + 1] else [d])"
  by (auto simp: lower_cp_def)

lemma lower_cp_odd_range:
  "0x139 \<le> d \<and> d \<le> 0x148 \<or> 0x179 \<le> d \<and> d \<le> 0x17E \<Longrightarrow>
   lower_cp d = (if odd d then [d + 1] else [d])"
  by (auto simp: lower_cp_def)

lemma lower_cp_other:
  "\<not> (0x41 \<le> d \<and> d \<le> 0x5A) \<Longrightarrow> \<not> (0xC0 \<le> d \<and> d \<le> 0xDE \<and> d \<noteq> 0xD7) \<Longrightarrow> d \<noteq> 0x130 \<Longrightarrow>
   d \<noteq> 0x178 \<Longrightarrow> \<not> (0x100 \<le> d \<and> d \<le> 0x137 \<or> 0x14A \<le> d \<and> d \<le> 0x177) \<Longrightarrow>
   \<not> (0x139 \<le> d \<and> d \<le> 0x148 \<or> 0x179 \<le> d \<and> d \<le> 0x17E) \<Longrightarrow> lower_cp d = [d]"
  by (simp add: lower_cp_def)

lemma lower_cp_odd_in_even_range:
  assumes "odd c" and "0x100 \<le> c \<and> c \<le> 0x137 \<or> 0x14A \<le> c \<and> c \<le> 0x177"
  shows "lower_cp c = [c]"
proof -
  from assms(1) have "c \<noteq> 0x130" by auto
  from lower_cp_even_range[OF assms(2) this] assms(1) show ?thesis by simp
qed

lemma lower_cp_even_in_odd_range:
  assumes "even c" and "0x139 \<le> c \<and> c \<le> 0x148 \<or> 0x179 \<le> c \<and> c \<le> 0x17E"
  shows "lower_cp c = [c]"
  using lower_cp_odd_range[OF assms(2)] assms(1) by simp

lemma even_range_succ:
  fixes d :: nat
  assumes "even d" and "0x100 \<le> d \<and> d \<le> 0x137 \<or> 0x14A \<le> d \<and> d \<le> 0x177"
  shows "0x100 \<le> d + 1 \<and> d + 1 \<le> 0x137 \<or> 0x14A \<le> d + 1 \<and> d + 1 \<le> 0x177"
proof -
  from assms(1) have "d \<noteq> 0x137" "d \<noteq> 0x177" by auto
  with assms(2) show ?thesis by arith
qed

lemma odd_range_succ:
  fixes d :: nat
  assumes "odd d" and "0x139 \<le> d \<and> d \<le> 0x148 \<or> 0x179 \<le> d \<and> d \<le> 0x17E"
  shows "0x139 \<le> d + 1 \<and> d + 1 \<le> 0x148 \<or> 0x179 \<le> d + 1 \<and> d + 1 \<le> 0x17E"
proof -
  from assms(1) have "d \<noteq> 0x148" "d \<noteq> 0x17E" by auto
  with assms(2) show ?thesis by arith
qed

lemma lower_cp_output_fixed:
  assumes "d' \<in> set (lower_cp d)"
  shows "lower_cp d' = [d']"
proof -
  consider (a) "0x41 \<le> d \<and> d \<le> 0x5A"
    | (b) "0xC0 \<le> d \<and> d \<le> 0xDE \<and> d \<noteq> 0xD7"
    | (c) "d = 0x130" | (d) "d = 0x178"
    | (e) "(0x100 \<le> d \<and> d \<le> 0x137 \<or> 0x14A \<le> d \<and> d \<le> 0x177) \<and> d \<noteq> 0x130"
    | (f) "0x139 \<le> d \<and> d \<le> 0x148 \<or> 0x179 \<le> d \<and> d \<le> 0x17E"
    | (g) "\<not> (0x41 \<le> d \<and> d \<le> 0x5A)" "\<not> (0xC0 \<le> d \<and> d \<le> 0xDE \<and> d \<noteq> 0xD7)" "d \<noteq> 0x130"
          "d \<noteq> 0x178" "\<not> (0x100 \<le> d \<and> d \<le> 0x137 \<or> 0x14A \<le> d \<and> d \<le> 0x177)"
          "\<not> (0x139 \<le> d \<and> d \<le> 0x148 \<or> 0x179 \<le> d \<and> d \<le> 0x17E)"
    by blast
  then show ?thesis
  proof cases
    case a
    with assms have "d' = d + 32" by (simp add: lower_cp_AZ)
    with a show ?thesis by (simp add: lower_cp_az)
  next
    case b
    with assms have "d' = d + 32" by (simp add: lower_cp_latin1)
    with b show ?thesis by (simp add: lower_cp_latin1_small)
  next
    case c
    with assms show ?thesis by (auto simp: lower_cp_consts)
  next
    case d
    with assms show ?thesis by (auto simp: lower_cp_consts)
  next
    case e
    then have l: "lower_cp d = (if even d then [d + 1] else [d])"
      by (intro lower_cp_even_range) auto
    show ?thesis
    proof (cases "even d")
      case True
      with l assms have "d' = d + 1" by simp
      moreover from True have "odd (d + 1)" by simp
      moreover from even_range_succ[OF True] e
      have "0x100 \<le> d + 1 \<and> d + 1 \<le> 0x137 \<or> 0x14A \<le> d + 1 \<and> d + 1 \<le> 0x177" by blast
      ultimately show ?thesis using lower_cp_odd_in_even_range[of "d + 1"] by simp
    next
      case False
      with l assms show ?thesis by simp
    qed
  next
    case f
    then have l: "lower_cp d = (if odd d then [d + 1] else [d])"
      by (rule lower_cp_odd_range)
    show ?thesis
    proof (cases "odd d")
      case True
      with l assms have "d' = d + 1" by simp
      moreover from True have "even (d + 1)" by simp
      moreover note odd_range_succ[OF True f]
      ultimately show ?thesis using lower_cp_even_in_odd_range[of "d + 1"] by simp
    next
      case False
      with l assms show ?thesis by simp
    qed
  next
    case g
    then have "lower_cp d = [d]" by (rule lower_cp_other)
    with assms show ?thesis by simp
  qed
qed
lemma turkish_cp_table:
  "translate_cp turkish_map 0x131 = 0x69" "translate_cp turkish_map 0x11F = 0x67"
  "translate_cp turkish_map 0xFC = 0x75" "translate_cp turkish_map 0x15F = 0x73"
  "translate_cp turkish_map 0xF6 = 0x6F" "translate_cp turkish_map 0xE7 = 0x63"
  "translate_cp turkish_map 0x130 = 0x49" "translate_cp turkish_map 0x11E = 0x47"
  "translate_cp turkish_map 0xDC = 0x55" "translate_cp turkish_map 0x15E = 0x53"
  "translate_cp turkish_map 0xD6 = 0x4F" "translate_cp turkish_map 0xC7 = 0x43"
  by (simp_all add: translate_cp_def turkish_map_def maketrans_def u_def)

lemma turkish_cp_other:
  "c \<notin> {0x131, 0x11F, 0xFC, 0x15F, 0xF6, 0xE7, 0x130, 0x11E, 0xDC, 0x15E, 0xD6, 0xC7} \<Longrightarrow>
   translate_cp turkish_map c = c"
  by (simp add: translate_cp_def turkish_map_def maketrans_def u_def)

lemma folded_letters_fixed:
  "lower_cp 0x69 = [0x69]" "lower_cp 0x67 = [0x67]" "lower_cp 0x75 = [0x75]"
  "lower_cp 0x73 = [0x73]" "lower_cp 0x6F = [0x6F]" "lower_cp 0x63 = [0x63]"
  by (simp_all add: lower_cp_def)

lemma folded_letters_kept:
  "translate_cp turkish_map 0x69 = 0x69" "translate_cp turkish_map 0x67 = 0x67"
  "translate_cp turkish_map 0x75 = 0x75" "translate_cp turkish_map 0x73 = 0x73"
  "translate_cp turkish_map 0x6F = 0x6F" "translate_cp turkish_map 0x63 = 0x63"
  by (simp_all add: turkish_cp_other)

lemma capitals_lowered:
  "lower_cp 0x130 = [0x69, 0x307]" "lower_cp 0x11E = [0x11F]" "lower_cp 0xDC = [0xFC]"
  "lower_cp 0x15E = [0x15F]" "lower_cp 0xD6 = [0xF6]" "lower_cp 0xC7 = [0xE7]"
  by (simp_all add: lower_cp_def)

lemma turkish_letters_not_space:
  "\<not> is_space 0x131" "\<not> is_space 0x11F" "\<not> is_space 0xFC" "\<not> is_space 0x15F"
  "\<not> is_space 0xF6" "\<not> is_space 0xE7" "\<not> is_space 0x130" "\<not> is_space 0x11E"
  "\<not> is_space 0xDC" "\<not> is_space 0x15E" "\<not> is_space 0xD6" "\<not> is_space 0xC7"
  "\<not> is_space 0x69" "\<not> is_space 0x67" "\<not> is_space 0x75" "\<not> is_space 0x73"
  "\<not> is_space 0x6F" "\<not> is_space 0x63" "\<not> is_space 0x49" "\<not> is_space 0x47"
  "\<not> is_space 0x55" "\<not> is_space 0x53" "\<not> is_space 0x4F" "\<not> is_space 0x43"
  by (simp_all add: is_space_def)

lemma turkish_cp_of_fixed:
  assumes "lower_cp c = [c]"
  shows "lower_cp (translate_cp turkish_map c) = [translate_cp turkish_map c]
         \<and> translate_cp turkish_map (translate_cp turkish_map c) = translate_cp turkish_map c"
proof (cases "c \<in> {0x131, 0x11F, 0xFC, 0x15F, 0xF6, 0xE7, 0x130, 0x11E, 0xDC, 0x15E, 0xD6, 0xC7}")
  case False
  then have "translate_cp turkish_map c = c" by (rule turkish_cp_other)
  with assms show ?thesis by simp
next
  case True
  then consider "c = 0x131" | "c = 0x11F" | "c = 0xFC" | "c = 0x15F" | "c = 0xF6" | "c = 0xE7"
    | "c = 0x130" | "c = 0x11E" | "c = 0xDC" | "c = 0x15E" | "c = 0xD6" | "c = 0xC7"
    by blast
  then show ?thesis
    using assms
    by cases (simp_all add: turkish_cp_table folded_letters_fixed folded_letters_kept capitals_lowered)
qed

lemma turkish_cp_space: "is_space (translate_cp turkish_map c) \<longleftrightarrow> is_space c"
proof (cases "c \<in> {0x131, 0x11F, 0xFC, 0x15F, 0xF6, 0xE7, 0x130, 0x11E, 0xDC, 0x15E, 0xD6, 0xC7}")
  case False
  then have "translate_cp turkish_map c = c" by (rule turkish_cp_other)
  then show ?thesis by simp
next
  case True
  then consider "c = 0x131" | "c = 0x11F" | "c = 0xFC" | "c = 0x15F" | "c = 0xF6" | "c = 0xE7"
    | "c = 0x130" | "c = 0x11E" | "c = 0xDC" | "c = 0x15E" | "c = 0xD6" | "c = 0xC7"
    by blast
  then show ?thesis
    by cases (simp_all add: turkish_cp_table turkish_letters_not_space)
qed
lemma not_space_between: "0x21 \<le> c \<Longrightarrow> c \<le> 0x7F \<or> 0xA1 \<le> c \<and> c \<le> 0x167F \<Longrightarrow> \<not> is_space c"
  by (auto simp: is_space_def)

lemma lower_cp_keeps_non_space:
  assumes "d' \<in> set (lower_cp d)" and "\<not> is_space d"
  shows "\<not> is_space d'"
proof -
  consider (a) "0x41 \<le> d \<and> d \<le> 0x5A"
    | (b) "0xC0 \<le> d \<and> d \<le> 0xDE \<and> d \<noteq> 0xD7"
    | (c) "d = 0x130" | (d) "d = 0x178"
    | (e) "(0x100 \<le> d \<and> d \<le> 0x137 \<or> 0x14A \<le> d \<and> d \<le> 0x177) \<and> d \<noteq> 0x130"
    | (f) "0x139 \<le> d \<and> d \<le> 0x148 \<or> 0x179 \<le> d \<and> d \<le> 0x17E"
    | (g) "\<not> (0x41 \<le> d \<and> d \<le> 0x5A)" "\<not> (0xC0 \<le> d \<and> d \<le> 0xDE \<and> d \<noteq> 0xD7)" "d \<noteq> 0x130"
          "d \<noteq> 0x178" "\<not> (0x100 \<le> d \<and> d \<le> 0x137 \<or> 0x14A \<le> d \<and> d \<le> 0x177)"
          "\<not> (0x139 \<le> d \<and> d \<le> 0x148 \<or> 0x179 \<le> d \<and> d \<le> 0x17E)"
    by blast
  then show ?thesis
  proof cases
    case a
    with assms have "d' = d + 32" by (simp add: lower_cp_AZ)
    with a show ?thesis by (intro not_space_between) auto
  next
    case b
    with assms have "d' = d + 32" by (simp add: lower_cp_latin1)
    with b show ?thesis by (intro not_space_between) auto
  next
    case c
    with assms have "d' = 0x69 \<or> d' = 0x307" by (simp add: lower_cp_consts)
    then show ?thesis by (auto simp: is_space_def)
  next
    case d
    with assms have "d' = 0xFF" by (simp add: lower_cp_consts)
    then show ?thesis by (simp add: is_space_def)
  next
    case e
    then have "lower_cp d = (if even d then [d + 1] else [d])"
      by (intro lower_cp_even_range) auto
    with assms have "d' = d \<or> d' = d + 1" by (auto split: if_splits)
    with e show ?thesis by (intro not_space_between) auto
  next
    case f
    then have "lower_cp d = (if odd d then [d + 1] else [d])"
      by (rule lower_cp_odd_range)
    with assms have "d' = d \<or> d' = d + 1" by (auto split: if_splits)
    with f show ?thesis by (intro not_space_between) auto
  next
    case g
    then have "lower_cp d = [d]" by (rule lower_cp_other)
    with assms show ?thesis by simp
  qed
qed

lemma lower_cp_nonempty: "lower_cp c \<noteq> []"
  by (simp add: lower_cp_def)

lemma py_lower_Cons: "py_lower (c # cs) = lower_cp c @ py_lower cs"
  by (simp add: py_lower_def)

lemma py_lower_fixed: "\<forall>c \<in> set y. lower_cp c = [c] \<Longrightarrow> py_lower y = y"
  by (induction y) (simp_all add: py_lower_def)

lemma set_py_lower: "c' \<in> set (py_lower t) \<Longrightarrow> \<exists>c \<in> set t. c' \<in> set (lower_cp c)"
  by (auto simp: py_lower_def)

text \<open>A text that neither begins nor ends with white space.\<close>

lemma py_lower_ends:
  assumes "t \<noteq> []" and "\<not> is_space (hd t)" and "\<not> is_space (last t)"
  shows "py_lower t \<noteq> [] \<and> \<not> is_space (hd (py_lower t)) \<and> \<not> is_space (last (py_lower t))"
proof -
  from assms(1) obtain c cs where t: "t = c # cs" by (cases t) auto
  from assms(1) obtain bs b where t': "t = bs @ [b]" by (cases t rule: rev_cases) auto
  have ne: "py_lower t \<noteq> []" by (simp add: t py_lower_Cons lower_cp_nonempty)
  have "hd (py_lower t) = hd (lower_cp c)" by (simp add: t py_lower_Cons lower_cp_nonempty)
  moreover have "hd (lower_cp c) \<in> set (lower_cp c)" by (simp add: lower_cp_nonempty)
  ultimately have h: "\<not> is_space (hd (py_lower t))"
    using lower_cp_keeps_non_space[of "hd (lower_cp c)" c] assms(2) t by simp
  have "py_lower t = py_lower bs @ lower_cp b" by (simp add: t' py_lower_def)
  then have "last (py_lower t) = last (lower_cp b)" by (simp add: lower_cp_nonempty)
  moreover have "last (lower_cp b) \<in> set (lower_cp b)" by (simp add: lower_cp_nonempty)
  ultimately have l: "\<not> is_space (last (py_lower t))"
    using lower_cp_keeps_non_space[of "last (lower_cp b)" b] assms(3) t' by simp
  from ne h l show ?thesis by blast
qed

lemma py_strip_ends:
  "py_strip s = [] \<or> (\<not> is_space (hd (py_strip s)) \<and> \<not> is_space (last (py_strip s)))"
proof (cases "py_strip s = []")
  case True
  then show ?thesis by simp
next
  case False
  define w where "w = dropWhile is_space s"
  define r where "r = dropWhile is_space (rev w)"
  have st: "py_strip s = rev r" by (simp add: py_strip_def r_def w_def)
  with False have rne: "r \<noteq> []" by simp
  then have hr: "\<not> is_space (hd r)" unfolding r_def by (rule hd_dropWhile)
  from rne have wne: "w \<noteq> []" by (auto simp: r_def)
  then have hw: "\<not> is_space (hd w)" unfolding w_def by (rule hd_dropWhile)
  have "rev w = takeWhile is_space (rev w) @ r" by (simp add: r_def)
  then have "last (rev w) = last r" using rne by (metis last_appendR)
  then have "last r = hd w" using wne by (simp add: last_rev)
  with hw hr rne st show ?thesis by (simp add: hd_rev last_rev)
qed

lemma py_strip_fixed:
  assumes "z \<noteq> []" and "\<not> is_space (hd z)" and "\<not> is_space (last z)"
  shows "py_strip z = z"
proof -
  have "dropWhile is_space z = z" using assms(1,2) by (cases z) auto
  moreover have "dropWhile is_space (rev z) = rev z"
    using assms(1,3) by (cases "rev z") (auto simp: hd_rev[symmetric] simp del: hd_rev)
  ultimately show ?thesis by (simp add: py_strip_def)
qed
lemma set_collapse_ws: "set (collapse_ws z) \<subseteq> insert 32 (set z)"
proof (induction z rule: collapse_ws.induct)
  case 1
  then show ?case by simp
next
  case (2 c cs)
  show ?case
  proof (cases "is_space c")
    case True
    with 2 have "set (collapse_ws (dropWhile is_space cs)) \<subseteq> insert 32 (set (dropWhile is_space cs))"
      by simp
    moreover have "set (dropWhile is_space cs) \<subseteq> set cs" by (auto dest: set_dropWhileD)
    ultimately show ?thesis using True by auto
  next
    case False
    with 2 show ?thesis by auto
  qed
qed

lemma collapse_ws_no_space: "\<forall>c \<in> set z. \<not> is_space c \<Longrightarrow> collapse_ws z = z"
  by (induction z) simp_all

lemma collapse_ws_has_space: "\<exists>c \<in> set z. is_space c \<Longrightarrow> 32 \<in> set (collapse_ws z)"
proof (induction z rule: collapse_ws.induct)
  case 1
  then show ?case by simp
next
  case (2 c cs)
  show ?case
  proof (cases "is_space c")
    case True
    then show ?thesis by simp
  next
    case False
    with 2 show ?thesis by auto
  qed
qed

lemma collapse_ws_idem: "collapse_ws (collapse_ws z) = collapse_ws z"
proof (induction z rule: collapse_ws.induct)
  case 1
  then show ?case by simp
next
  case (2 c cs)
  show ?case
  proof (cases "is_space c")
    case True
    define w where "w = dropWhile is_space cs"
    have ih: "collapse_ws (collapse_ws w) = collapse_ws w" using 2 True by (simp add: w_def)
    have "dropWhile is_space (collapse_ws w) = collapse_ws w"
    proof (cases w)
      case Nil
      then show ?thesis by simp
    next
      case (Cons d ds)
      then have "\<not> is_space d" using hd_dropWhile[of is_space cs] by (simp add: w_def)
      with Cons show ?thesis by simp
    qed
    moreover have "is_space 32" by (simp add: is_space_def)
    ultimately show ?thesis using True ih by (simp add: w_def)
  next
    case False
    with 2 show ?thesis by simp
  qed
qed

lemma dropWhile_last:
  assumes "cs \<noteq> []" and "\<not> P (last cs)"
  shows "dropWhile P cs \<noteq> [] \<and> last (dropWhile P cs) = last cs"
proof -
  have ne: "dropWhile P cs \<noteq> []"
    using assms by (auto simp: dropWhile_eq_Nil_conv)
  have "cs = takeWhile P cs @ dropWhile P cs" by simp
  then have "last cs = last (dropWhile P cs)" using ne by (metis last_appendR)
  with ne show ?thesis by simp
qed

lemma collapse_ws_last:
  "z \<noteq> [] \<Longrightarrow> \<not> is_space (last z) \<Longrightarrow> collapse_ws z \<noteq> [] \<and> last (collapse_ws z) = last z"
proof (induction z rule: collapse_ws.induct)
  case 1
  then show ?case by simp
next
  case (2 c cs)
  show ?case
  proof (cases "is_space c")
    case True
    with "2.prems" have cne: "cs \<noteq> []" by auto
    with "2.prems" have lc: "\<not> is_space (last cs)" by simp
    from dropWhile_last[of cs is_space, OF cne lc]
    have w: "dropWhile is_space cs \<noteq> []" "last (dropWhile is_space cs) = last cs" by simp_all
    from w(1) lc w(2) have "\<not> is_space (last (dropWhile is_space cs))" by simp
    from "2.IH"(1)[OF True w(1) this]
    have "collapse_ws (dropWhile is_space cs) \<noteq> []"
      "last (collapse_ws (dropWhile is_space cs)) = last (dropWhile is_space cs)" by simp_all
    with True w(2) cne show ?thesis by simp
  next
    case False
    show ?thesis
    proof (cases "cs = []")
      case True
      with False show ?thesis by simp
    next
      case ne: False
      with "2.prems" have "\<not> is_space (last cs)" by simp
      from "2.IH"(2)[OF False ne this] False ne show ?thesis by simp
    qed
  qed
qed

lemma collapse_ws_hd: "z \<noteq> [] \<Longrightarrow> \<not> is_space (hd z) \<Longrightarrow> hd (collapse_ws z) = hd z"
  by (cases z) simp_all
lemma normalize_text_PyStr:
  "normalize_text (PyStr s) =
     (if py_lower (py_strip s) \<in> set [u ''nan'', u ''none'', []] then []
      else collapse_ws (translate turkish_map (py_lower (py_strip s))))"
  by (simp add: normalize_text_def Let_def)

lemma normalize_text_empty: "normalize_text (PyStr []) = []"
  by (simp add: normalize_text_def py_strip_def py_lower_def)

lemma turkish_cp_n_a:
  assumes "translate_cp turkish_map c = 110 \<or> translate_cp turkish_map c = 97"
  shows "translate_cp turkish_map c = c"
proof (cases "c \<in> {0x131, 0x11F, 0xFC, 0x15F, 0xF6, 0xE7, 0x130, 0x11E, 0xDC, 0x15E, 0xD6, 0xC7}")
  case False
  then show ?thesis by (rule turkish_cp_other)
next
  case True
  then consider "c = 0x131" | "c = 0x11F" | "c = 0xFC" | "c = 0x15F" | "c = 0xF6" | "c = 0xE7"
    | "c = 0x130" | "c = 0x11E" | "c = 0xDC" | "c = 0x15E" | "c = 0xD6" | "c = 0xC7"
    by blast
  then show ?thesis using assms by cases (simp_all add: turkish_cp_table)
qed

lemma translate_nan:
  assumes "translate turkish_map t = u ''nan''"
  shows "t = u ''nan''"
proof -
  have "\<forall>c \<in> set t. translate_cp turkish_map c = c"
  proof
    fix c assume "c \<in> set t"
    then have "translate_cp turkish_map c \<in> set (translate turkish_map t)"
      by (simp add: translate_def)
    then have "translate_cp turkish_map c = 110 \<or> translate_cp turkish_map c = 97"
      unfolding assms by (auto simp: u_def)
    then show "translate_cp turkish_map c = c" by (rule turkish_cp_n_a)
  qed
  then have "translate turkish_map t = t" by (simp add: translate_def map_idI)
  with assms show ?thesis by simp
qed

lemma normalize_text_not_nan: "normalize_text (PyStr s) \<noteq> u ''nan''"
proof
  assume a: "normalize_text (PyStr s) = u ''nan''"
  define t where "t = py_lower (py_strip s)"
  have nn: "u ''nan'' \<noteq> []" by (simp add: u_def)
  from a nn have t: "t \<notin> set [u ''nan'', u ''none'', []]"
    and y: "collapse_ws (translate turkish_map t) = u ''nan''"
    by (auto simp: normalize_text_PyStr t_def split: if_splits)
  have "32 \<notin> set (u ''nan'')" by (simp add: u_def)
  with y have "\<not> (\<exists>c \<in> set (translate turkish_map t). is_space c)"
    using collapse_ws_has_space[of "translate turkish_map t"] by auto
  then have "collapse_ws (translate turkish_map t) = translate turkish_map t"
    by (intro collapse_ws_no_space) blast
  with y have "translate turkish_map t = u ''nan''" by simp
  then have "t = u ''nan''" by (rule translate_nan)
  with t show False by simp
qed

lemma normalize_text_result_fixed:
  assumes t: "py_lower (py_strip s) \<notin> set [u ''nan'', u ''none'', []]"
    and n: "normalize_text (PyStr s) \<noteq> u ''none''"
  shows "normalize_text (PyStr (normalize_text (PyStr s))) = normalize_text (PyStr s)"
proof -
  define t where "t = py_lower (py_strip s)"
  define z where "z = translate turkish_map t"
  define y where "y = collapse_ws z"
  have ny: "normalize_text (PyStr s) = y"
    using t by (simp add: normalize_text_PyStr y_def z_def t_def)
  from t have tne: "t \<noteq> []" by (simp add: t_def)
  then have "py_strip s \<noteq> []" by (auto simp: t_def py_lower_def)
  with py_strip_ends[of s]
  have "\<not> is_space (hd (py_strip s))" "\<not> is_space (last (py_strip s))" by simp_all
  from py_lower_ends[OF \<open>py_strip s \<noteq> []\<close> this]
  have te: "\<not> is_space (hd t)" "\<not> is_space (last t)" by (simp_all add: t_def)
  have zne: "z \<noteq> []" using tne by (simp add: z_def translate_def)
  have "hd z = translate_cp turkish_map (hd t)" "last z = translate_cp turkish_map (last t)"
    using tne by (simp_all add: z_def translate_def hd_map last_map)
  with te have ze: "\<not> is_space (hd z)" "\<not> is_space (last z)"
    by (simp_all add: turkish_cp_space)
  from collapse_ws_last[OF zne ze(2)] collapse_ws_hd[OF zne ze(1)] ze
  have yne: "y \<noteq> []" and ye: "\<not> is_space (hd y)" "\<not> is_space (last y)"
    by (simp_all add: y_def)
  then have strip: "py_strip y = y" by (rule py_strip_fixed)
  have tf: "\<forall>c \<in> set t. lower_cp c = [c]"
    unfolding t_def by (auto dest!: set_py_lower intro: lower_cp_output_fixed)
  have zf: "\<forall>c \<in> set z. lower_cp c = [c] \<and> translate_cp turkish_map c = c"
    unfolding z_def translate_def using tf turkish_cp_of_fixed by auto
  have "lower_cp 32 = [32]" "translate_cp turkish_map 32 = 32"
    by (simp_all add: lower_cp_consts turkish_cp_other)
  with zf have yf: "\<forall>c \<in> set y. lower_cp c = [c] \<and> translate_cp turkish_map c = c"
    using set_collapse_ws[of z] unfolding y_def by blast
  then have low: "py_lower y = y" by (intro py_lower_fixed) blast
  from yf have trans_y: "translate turkish_map y = y" by (simp add: translate_def map_idI)
  have "y \<noteq> u ''nan''" using normalize_text_not_nan[of s] ny by simp
  moreover have "y \<noteq> u ''none''" using n ny by simp
  ultimately have "py_lower (py_strip y) \<notin> set [u ''nan'', u ''none'', []]"
    using yne by (simp add: strip low)
  then have "normalize_text (PyStr y) = collapse_ws (translate turkish_map (py_lower (py_strip y)))"
    by (simp add: normalize_text_PyStr)
  also have "\<dots> = collapse_ws y" by (simp add: strip low trans_y)
  also have "\<dots> = y" unfolding y_def by (rule collapse_ws_idem)
  finally show ?thesis by (simp add: ny)
qed

lemma normalize_text_idem_str:
  assumes "normalize_text (PyStr s) \<noteq> u ''none''"
  shows "normalize_text (PyStr (normalize_text (PyStr s))) = normalize_text (PyStr s)"
proof (cases "py_lower (py_strip s) \<in> set [u ''nan'', u ''none'', []]")
  case True
  then have "normalize_text (PyStr s) = []" by (simp add: normalize_text_PyStr)
  then show ?thesis by (simp add: normalize_text_empty)
next
  case False
  from normalize_text_result_fixed[OF False assms] show ?thesis .
qed

text \<open>
  C9 as the specification states it (normalising twice is normalising once, for every
  input) fails: "none" written with o-diaeresis normalises to \<open>none\<close>, which the
  placeholder check then turns into the empty text.
\<close>

theorem normalize_not_idempotent_at_noene:
  "normalize_text (PyStr (normalize_text (PyStr noene_query))) \<noteq> normalize_text (PyStr noene_query)"
  by (simp add: normalize_noene normalize_none) (simp add: u_def)

text \<open>
  C9, amended. For an input whose code points are below U+0180 (where the model of
  \<open>str.lower\<close> is exact) and whose normal form is not the text \<open>none\<close>, normalising the
  normal form again changes nothing. \<open>None\<close> and NaN are covered: their normal form
  is the empty text.
\<close>

theorem normalize_idempotent_unless_none:
  "normalize_text x \<noteq> u ''none'' \<Longrightarrow> (\<forall>s. x = PyStr s \<longrightarrow> (\<forall>c \<in> set s. c < 0x180)) \<Longrightarrow>
   normalize_text (PyStr (normalize_text x)) = normalize_text x"
proof (cases x)
  case PyNone
  then show ?thesis by (simp add: normalize_text_def py_strip_def py_lower_def)
next
  case PyNaN
  then show ?thesis by (simp add: normalize_text_def py_strip_def py_lower_def)
next
  case (PyStr s)
  assume "normalize_text x \<noteq> u ''none''"
  with PyStr show ?thesis by (simp add: normalize_text_idem_str)
qed

theorem normalize_idempotent_unless_none_witness:
  "normalize_text (PyStr istanbul_soyle_cesit) \<noteq> u ''none''
   \<and> list_all (\<lambda>c. c < 0x180) istanbul_soyle_cesit
   \<and> normalize_text (PyStr (normalize_text (PyStr istanbul_soyle_cesit)))
       = normalize_text (PyStr istanbul_soyle_cesit)
   \<and> normalize_text (PyStr (normalize_text (PyStr istanbul_soyle_cesit)))
       = [0x69, 0x307] @ u ''stanbul soyle cesit''"
proof -
  have v: "normalize_text (PyStr istanbul_soyle_cesit) = [0x69, 0x307] @ u ''stanbul soyle cesit''"
    by (simp add: istanbul_soyle_cesit_def text_eval)
  then have a: "normalize_text (PyStr istanbul_soyle_cesit) \<noteq> u ''none''"
    by (simp add: u_def)
  have b: "list_all (\<lambda>c. c < 0x180) istanbul_soyle_cesit"
    by (simp add: istanbul_soyle_cesit_def u_def)
  then have b': "\<forall>s. PyStr istanbul_soyle_cesit = PyStr s \<longrightarrow> (\<forall>c \<in> set s. c < 0x180)"
    by (simp add: list_all_iff)
  from normalize_idempotent_unless_none[OF a b']
  have c: "normalize_text (PyStr (normalize_text (PyStr istanbul_soyle_cesit)))
       = normalize_text (PyStr istanbul_soyle_cesit)" .
  from a b c v show ?thesis by simp
qed

section \<open>The number helpers of app.py\<close>

text \<open>
  The service reads commissions with its own helpers, not with
  \<open>parse_commission_to_float\<close>. They turn every comma into a point and take the first
  decimal number, so a point before a comma is read as the decimal point, and they
  do not scale; the scale is corrected for a whole column at once, by its 0.95
  quantile, not value by value.
\<close>

lemma first_decimal_thousands:
  "first_decimal (py_replace 44 [46] (py_replace 37 [] (u ''1.234,56''))) = Some (u ''1.234'')"
  by (simp add: u_def py_replace_def first_decimal_def is_digit_def)

lemma decimal_1_234: "decimal_value (u ''1.234'') = Some (1234 / 1000)"
  by (simp add: u_def decimal_value_def is_digit_def digits_value_def)

lemma extract_num_reads_thousands_point_as_decimal:
  "extract_num (u ''1.234,56'') = Some (to_double (1234 / 1000))"
  by (simp only: extract_num_def first_decimal_thousands option.case py_float_def decimal_1_234
      option.map)

lemma extract_number_reads_thousands_point_as_decimal:
  "extract_number (u ''1.234,56'') = Some (1234 / 1000)"
  by (simp add: extract_number_def u_def py_strip_def is_space_def py_replace_def
      first_decimal_def is_digit_def decimal_value_def digits_value_def)

lemma first_decimal_fraction:
  "first_decimal (py_replace 44 [46] (py_replace 37 [] (u ''0,18''))) = Some (u ''0.18'')"
  by (simp add: u_def py_replace_def first_decimal_def is_digit_def)

lemma decimal_0_18: "decimal_value (u ''0.18'') = Some (9 / 50)"
  by (simp add: u_def decimal_value_def is_digit_def digits_value_def)

lemma extract_num_does_not_scale:
  "extract_num (u ''0,18'') = Some (Finite (3242591731706757 / 18014398509481984))"
  by (simp only: extract_num_def first_decimal_fraction option.case py_float_def decimal_0_18
      option.map to_double_0_18)

lemma fix_scale_is_per_column:
  "fix_scale [Some (18 / 100), Some 50] = [Some (18 / 100), Some 50]"
  "fix_scale [Some (18 / 100), Some (1 / 2)] = [Some 18, Some 50]"
  by (simp_all add: fix_scale_def quantile95_def)


end
